theory Spec2Isabelle
  imports Complex_Main "HOL-Library.AList" "HOL-Library.Sublist"
begin

section \<open>JavaScript values used by the family import\<close>

text \<open>
  A row delivered by csvtojson (with \<open>flatKeys\<close>) is a flat object from column names to
  strings. It is modelled by the list of its own properties in enumeration order. Reading a
  property that is absent gives \<open>undefined\<close>, modelled by \<open>None\<close>. Characters outside ASCII
  are written as their UTF-8 bytes.
\<close>

type_synonym row = "(string \<times> string) list"

definition field :: "row \<Rightarrow> string \<Rightarrow> string option" where
  "field item k = map_of item k"

definition Object_keys :: "row \<Rightarrow> string list" where
  "Object_keys item = map fst item"

text \<open>A value interpolated into a template literal: \<open>undefined\<close> prints as its name.\<close>

definition template :: "string option \<Rightarrow> string" where
  "template v = (case v of None \<Rightarrow> ''undefined'' | Some s \<Rightarrow> s)"

text \<open>\<open>Array.prototype.join\<close> on an array of strings.\<close>

fun join :: "string \<Rightarrow> string list \<Rightarrow> string" where
  "join sep [] = []"
| "join sep [x] = x"
| "join sep (x # y # ys) = x @ sep @ join sep (y # ys)"

text \<open>\<open>String.prototype.startsWith\<close> and \<open>String.prototype.includes\<close>.\<close>

fun startsWith :: "string \<Rightarrow> string \<Rightarrow> bool" where
  "startsWith s [] = True"
| "startsWith [] (c # cs) = False"
| "startsWith (d # ds) (c # cs) = (d = c \<and> startsWith ds cs)"

fun includesStr :: "string \<Rightarrow> string \<Rightarrow> bool" where
  "includesStr [] sub = (sub = [])"
| "includesStr (d # ds) sub = (startsWith (d # ds) sub \<or> includesStr ds sub)"

text \<open>The object literal \<open>{ ...item, reason: r }\<close>.\<close>

definition withReason :: "row \<Rightarrow> string \<Rightarrow> row" where
  "withReason item r = AList.update ''reason'' r item"

text \<open>\<open>Array.prototype.findIndex\<close>; the result \<open>-1\<close> is \<open>None\<close>.\<close>

fun findIndex :: "('a \<Rightarrow> bool) \<Rightarrow> 'a list \<Rightarrow> nat option" where
  "findIndex p [] = None"
| "findIndex p (x # xs) = (if p x then Some 0 else map_option Suc (findIndex p xs))"

text \<open>Reading \<open>xs[i]\<close>: out of range the value is \<open>undefined\<close>.\<close>

definition elemAt :: "'a list \<Rightarrow> nat \<Rightarrow> 'a option" where
  "elemAt xs i = (if i < length xs then Some (xs ! i) else None)"

text \<open>\<open>xs.splice(i, 1)\<close>: the array without its element at index \<open>i\<close>.\<close>

definition splice1 :: "nat \<Rightarrow> 'a list \<Rightarrow> 'a list" where
  "splice1 i xs = take i xs @ drop (Suc i) xs"

text \<open>lodash \<open>uniqBy\<close>: the first element of every class of the iteratee, in order.\<close>

fun uniqByFrom :: "'k list \<Rightarrow> ('a \<Rightarrow> 'k) \<Rightarrow> 'a list \<Rightarrow> 'a list" where
  "uniqByFrom seen f [] = []"
| "uniqByFrom seen f (x # xs) =
     (if f x \<in> set seen then uniqByFrom seen f xs else x # uniqByFrom (f x # seen) f xs)"

definition uniqBy :: "'a list \<Rightarrow> ('a \<Rightarrow> 'k) \<Rightarrow> 'a list" where
  "uniqBy xs f = uniqByFrom [] f xs"

section \<open>The import report registry\<close>

datatype status =
  idle | completed | failed | reading_files | filtering_data | saving | comparing_data

record ImportReport =
  status :: status
  message :: "string option"
  percentage :: "rat option"
  cityId :: "nat option"
  inProgress :: "bool option"

definition getImportReport :: "ImportReport list \<Rightarrow> nat \<Rightarrow> ImportReport" where
  "getImportReport importReportList c =
     (case find (\<lambda>item. cityId item = Some c) importReportList of
        None \<Rightarrow> \<lparr>status = idle, message = None, percentage = None,
                 cityId = Some c, inProgress = Some False\<rparr>
      | Some importReport \<Rightarrow> importReport)"

definition updateImportReport ::
  "ImportReport \<Rightarrow> nat \<Rightarrow> ImportReport list \<Rightarrow> ImportReport list" where
  "updateImportReport importReport c importReportList =
     (let removed = (case findIndex (\<lambda>item. cityId item = Some c) importReportList of
                       None \<Rightarrow> importReportList
                     | Some index \<Rightarrow> splice1 index importReportList);
          inProgress' = (case inProgress importReport of Some b \<Rightarrow> b | None \<Rightarrow> True)
      in removed @ [importReport\<lparr>cityId := Some c, inProgress := Some inProgress'\<rparr>])"

text \<open>What \<open>updateImportReport\<close> pushes for a report and a city.\<close>

definition stored :: "ImportReport \<Rightarrow> nat \<Rightarrow> ImportReport" where
  "stored importReport c =
     importReport\<lparr>cityId := Some c,
                  inProgress := Some (case inProgress importReport of Some b \<Rightarrow> b | None \<Rightarrow> True)\<rparr>"

text \<open>The registry starts empty and is only ever changed by \<open>updateImportReport\<close>.\<close>

definition registryAfter :: "(ImportReport \<times> nat) list \<Rightarrow> ImportReport list" where
  "registryAfter updates = foldl (\<lambda>l (r, c). updateImportReport r c l) [] updates"

text \<open>The object literals passed to \<open>updateImportReport\<close> by the import.\<close>

definition report :: "status \<Rightarrow> ImportReport" where
  "report s = \<lparr>status = s, message = None, percentage = None, cityId = None, inProgress = None\<rparr>"

section \<open>Families, dependents and the libraries the import calls\<close>

text \<open>A JavaScript \<open>Date\<close>: its time value, or the invalid date (time value \<open>NaN\<close>).\<close>

datatype Date = InvalidDate | Date int

text \<open>
  Modelled from the spec: \<open>parseFamilyAndSislameItems\<close> (models/dependents.ts) is not among
  the available sources. A dependent record is represented by the two rows it is parsed
  from, the benefit row first; its national ID is the \<open>NISDEPENDEN\<close> of that benefit row.
  Reading a property of \<open>undefined\<close> raises a \<open>TypeError\<close>.
\<close>

type_synonym Dependent = "row \<times> row"

datatype error = Http412 string | TypeError | Thrown string

definition parseFamilyAndSislameItems :: "row option \<Rightarrow> row option \<Rightarrow> error + Dependent" where
  "parseFamilyAndSislameItems familyItem sislameItem =
     (case familyItem of
        None \<Rightarrow> Inl TypeError
      | Some f \<Rightarrow> (case sislameItem of None \<Rightarrow> Inl TypeError | Some s \<Rightarrow> Inr (f, s)))"

definition dependentNis :: "Dependent \<Rightarrow> string option" where
  "dependentNis d = field (fst d) ''NISDEPENDEN''"

record Family =
  responsibleNis :: "string option"
  responsibleName :: "string option"
  responsibleBirthday :: Date
  responsibleMotherName :: string
  code :: string
  groupName :: string
  familyCityId :: nat
  dependents :: "Dependent list"

text \<open>
  The functions the import takes from outside this file: \<open>compareNames\<close> (utils/string),
  lodash \<open>deburr\<close>, the moment library (\<open>moment(s, 'DD/MM/YYYY')\<close> with \<open>None\<close> for an
  invalid moment, the clock \<open>moment()\<close>, \<open>startOf('month')\<close> and \<open>diff(_, 'years')\<close> on
  valid moments), \<open>getFamilyGroupByCode\<close> (utils/constraints, giving the key of the
  group or \<open>None\<close> for \<open>undefined\<close>) and the persistence call, which either throws an error
  with a message or returns the stored family. The clock is read once per run.
\<close>

record lib =
  compareNames :: "string option \<Rightarrow> string option \<Rightarrow> bool"
  deburr :: "string \<Rightarrow> string"
  moment :: "string option \<Rightarrow> int option"
  now :: int
  startOfMonth :: "int \<Rightarrow> int"
  diffYears :: "int \<Rightarrow> int \<Rightarrow> int"
  getFamilyGroupByCode :: "nat \<Rightarrow> string option"
  certifyFamilyAndDependents :: "Family \<Rightarrow> string + Family"

text \<open>\<open>moment(s, 'DD/MM/YYYY').toDate()\<close>\<close>

definition toDate :: "int option \<Rightarrow> Date" where
  "toDate m = (case m of None \<Rightarrow> InvalidDate | Some t \<Rightarrow> Date t)"

text \<open>
  \<open>moment().startOf('month').diff(moment(s, 'DD/MM/YYYY'), 'years') < 18\<close>: the difference
  with an invalid moment is \<open>NaN\<close>, and \<open>NaN < 18\<close> is false.
\<close>

definition validAge :: "lib \<Rightarrow> string option \<Rightarrow> bool" where
  "validAge L s =
     (case moment L s of
        None \<Rightarrow> False
      | Some birth \<Rightarrow> diffYears L (startOfMonth L (now L)) birth < 18)"

definition parseFamilyItem :: "lib \<Rightarrow> row \<Rightarrow> nat \<Rightarrow> error + Family" where
  "parseFamilyItem L family c =
     (case getFamilyGroupByCode L 0 of
        None \<Rightarrow> Inl TypeError
      | Some key \<Rightarrow>
          Inr \<lparr>responsibleNis = field family ''NISTITULAR'',
               responsibleName = field family ''TITULAR'',
               responsibleBirthday = toDate (moment L (field family ''DTNASCTIT'')),
               responsibleMotherName = [],
               code = [],
               groupName = key,
               familyCityId = c,
               dependents = []\<rparr>)"

section \<open>The state the import changes\<close>

text \<open>
  The report registry, the records written to the reason file through the CSV writer, and
  the families handed to the persistence call, each in order.
\<close>

record state =
  importReportList :: "ImportReport list"
  csvRecords :: "row list"
  certified :: "Family list"

definition report_update :: "ImportReport \<Rightarrow> nat \<Rightarrow> state \<Rightarrow> state" where
  "report_update importReport c st =
     st\<lparr>importReportList := updateImportReport importReport c (importReportList st)\<rparr>"

definition writeRecords :: "row list \<Rightarrow> state \<Rightarrow> state" where
  "writeRecords records st = st\<lparr>csvRecords := csvRecords st @ records\<rparr>"

section \<open>Required columns\<close>

definition Mae_orig :: string where
  "Mae_orig = ''M'' @ [CHR 0xC3, CHR 0xA3] @ ''e''"

definition Nome_Responsavel_orig :: string where
  "Nome_Responsavel_orig = ''Nome Respons'' @ [CHR 0xC3, CHR 0xA1] @ ''vel''"

definition sislameRequiredKeys :: "string list" where
  "sislameRequiredKeys = [''Aluno'', Mae_orig, ''Pai'', Nome_Responsavel_orig, ''Data Nascimento'']"

definition familyRequiredKeys :: "string list" where
  "familyRequiredKeys =
     [''DEPENDENTE'', ''NISDEPENDEN'', ''NISTITULAR'', ''TITULAR'', ''DTNASCTIT'', ''DTNASCDEP'']"

definition notFoundMessage :: "string \<Rightarrow> string list \<Rightarrow> string list \<Rightarrow> string" where
  "notFoundMessage table notFoundKeys availableKeys =
     ''Na tabela do '' @ table @ '', as seguintes colunas n'' @ [CHR 0xC3, CHR 0xA3]
       @ ''o foram encontradas: '' @ join '', '' notFoundKeys
       @ '' --- Dispon'' @ [CHR 0xC3, CHR 0xAD] @ ''veis: '' @ join '', '' availableKeys"

definition Bolsa_Familia :: string where
  "Bolsa_Familia = ''Bolsa Fam'' @ [CHR 0xC3, CHR 0xAD] @ ''lia''"

definition failedReport :: "string \<Rightarrow> ImportReport" where
  "failedReport msg = (report failed)\<lparr>message := Some msg, inProgress := Some False\<rparr>"

definition checkRequiredSislameData :: "row option \<Rightarrow> nat \<Rightarrow> state \<Rightarrow> error option \<times> state" where
  "checkRequiredSislameData item c st =
     (case item of
        None \<Rightarrow> (Some (Http412 ''Nenhum dado na tabela do Sislame''), st)
      | Some item' \<Rightarrow>
          (let availableKeys = Object_keys item';
               notFoundKeys = filter (\<lambda>key. key \<notin> set availableKeys) sislameRequiredKeys
           in if length notFoundKeys > 0
              then (let msg = notFoundMessage ''Sislame'' notFoundKeys availableKeys
                    in (Some (Http412 msg), report_update (failedReport msg) c st))
              else (None, st)))"

definition checkRequiredFamilyData :: "row option \<Rightarrow> nat \<Rightarrow> state \<Rightarrow> error option \<times> state" where
  "checkRequiredFamilyData item c st =
     (case item of
        None \<Rightarrow> (Some (Http412 (''Nenhum dado na tabela do '' @ Bolsa_Familia)), st)
      | Some item' \<Rightarrow>
          (let availableKeys = Object_keys item';
               notFoundKeys = filter (\<lambda>key. key \<notin> set availableKeys) familyRequiredKeys
           in if length notFoundKeys > 0
              then (let msg = notFoundMessage Bolsa_Familia notFoundKeys availableKeys
                    in (Some (Http412 msg), report_update (failedReport msg) c st))
              else (None, st)))"

section \<open>Deduplication, age filter and normalisation\<close>

definition familyKey :: "row \<Rightarrow> string" where
  "familyKey item = template (field item ''NISTITULAR'') @ ''-'' @ template (field item ''NISDEPENDEN'')"

definition sislameKey :: "row \<Rightarrow> string" where
  "sislameKey item = template (field item ''Aluno'') @ ''-'' @ template (field item ''Matricula'')"

definition ofAgeReason :: string where
  "ofAgeReason = ''Depedente maior de idade''"

text \<open>The \<open>reduce\<close> that splits the benefit rows into the valid and the removed ones.\<close>

definition splitByAge :: "lib \<Rightarrow> row list \<Rightarrow> row list \<times> row list" where
  "splitByAge L rows =
     foldl (\<lambda>(valid, invalid) item.
              if \<not> validAge L (field item ''DTNASCDEP'')
              then (valid, invalid @ [withReason item ofAgeReason])
              else (valid @ [item], invalid))
           ([], []) rows"

text \<open>
  \<open>JSON.parse(deburr(JSON.stringify(data)))\<close>: \<open>deburr\<close> leaves the ASCII characters of the
  JSON syntax alone, so every key and every value is deburred, and \<open>JSON.parse\<close> keeps the
  last value of a key that occurs twice, at the place of its first occurrence.
\<close>

definition deburrItem :: "lib \<Rightarrow> row \<Rightarrow> row" where
  "deburrItem L item = foldl (\<lambda>obj (k, v). AList.update (deburr L k) (deburr L v) obj) [] item"

definition deburrData :: "lib \<Rightarrow> row list \<Rightarrow> row list" where
  "deburrData L rows = map (deburrItem L) rows"

text \<open>The rows whose dependent also occurs at another index of the list.\<close>

definition duplicatedDependent :: "row list \<Rightarrow> row list" where
  "duplicatedDependent familyData =
     map snd
       (filter (\<lambda>(index, item).
                  find (\<lambda>(findIndex, duplicated).
                          if index = findIndex then False
                          else field item ''NISDEPENDEN'' = field duplicated ''NISDEPENDEN'')
                       (enumerate 0 familyData) \<noteq> None)
               (enumerate 0 familyData))"

definition uniqueDependent :: "row list \<Rightarrow> row list" where
  "uniqueDependent familyData = uniqBy familyData (\<lambda>item. field item ''NISDEPENDEN'')"

section \<open>Cross-referencing one benefit row\<close>

definition sislameOfAgeReason :: string where
  "sislameOfAgeReason =
     ''Dependente n'' @ [CHR 0xC3, CHR 0xA3] @ ''o '' @ [CHR 0xC3, CHR 0xA9]
       @ '' menor de idade no Sislame''"

definition wrongResponsibleReason :: string where
  "wrongResponsibleReason =
     ''Encontrado aluno com mesmo nome no Sislame, mas respons'' @ [CHR 0xC3, CHR 0xA1]
       @ ''vel diferente. Atualizar Sislame ou '' @ [CHR 0xC3, CHR 0xA9]
       @ '' um hom'' @ [CHR 0xC3, CHR 0xB4] @ ''nimo''"

definition notInSislameReason :: string where
  "notInSislameReason =
     ''Dependente n'' @ [CHR 0xC3, CHR 0xA3] @ ''o est'' @ [CHR 0xC3, CHR 0xA1] @ '' no Sislame''"

definition linkedToOtherReason :: "string \<Rightarrow> string" where
  "linkedToOtherReason name =
     ''Dependente est'' @ [CHR 0xC3, CHR 0xA1] @ '' vinculado '' @ [CHR 0xC3, CHR 0xA0]
       @ '' outra pessoa ('' @ name @ '')''"

definition sameName :: "lib \<Rightarrow> row \<Rightarrow> row \<Rightarrow> bool" where
  "sameName L familyItem sislameItem =
     compareNames L (field sislameItem ''Aluno'') (field familyItem ''DEPENDENTE'')"

definition sameResponsible :: "lib \<Rightarrow> row \<Rightarrow> row \<Rightarrow> bool" where
  "sameResponsible L familyItem sislameItem =
     (compareNames L (field sislameItem ''Mae'') (field familyItem ''TITULAR'')
      \<or> compareNames L (field sislameItem ''Pai'') (field familyItem ''TITULAR'')
      \<or> compareNames L (field sislameItem ''Nome Responsavel'') (field familyItem ''TITULAR''))"

text \<open>
  Adding the dependent of an accepted row to \<open>grantedFamilies\<close>: a new family when the
  responsible is not on the list yet, one more dependent of the family found otherwise.
\<close>

definition grantDependent ::
  "lib \<Rightarrow> nat \<Rightarrow> Family list \<Rightarrow> row \<Rightarrow> row option \<Rightarrow> row option \<Rightarrow> error + Family list" where
  "grantDependent L c grantedFamilies familyItem originalFamilyItem originalSislameItem =
     (let alreadyOnListIndex =
            findIndex (\<lambda>family. responsibleNis family = field familyItem ''NISTITULAR'')
              grantedFamilies
      in case parseFamilyAndSislameItems originalFamilyItem originalSislameItem of
           Inl e \<Rightarrow> Inl e
         | Inr dependent' \<Rightarrow>
             (case alreadyOnListIndex of
                None \<Rightarrow>
                  (case originalFamilyItem of
                     None \<Rightarrow> Inl TypeError
                   | Some original \<Rightarrow>
                       (case parseFamilyItem L original c of
                          Inl e \<Rightarrow> Inl e
                        | Inr family \<Rightarrow>
                            Inr (grantedFamilies @ [family\<lparr>dependents := [dependent']\<rparr>])))
              | Some i \<Rightarrow>
                  (let family = grantedFamilies ! i
                   in Inr (grantedFamilies
                             [i := family\<lparr>dependents := dependents family @ [dependent']\<rparr>]))))"

text \<open>
  The body of the loop over \<open>familyData\<close>, for the row at \<open>familyIndex\<close>; \<open>n\<close> is
  \<open>familyData.length\<close>. The result is the error thrown, if any, the granted families and
  the state.
\<close>

definition compareStep ::
  "lib \<Rightarrow> nat \<Rightarrow> row list \<Rightarrow> row list \<Rightarrow> row list \<Rightarrow> nat \<Rightarrow> nat \<Rightarrow> row
     \<Rightarrow> Family list \<times> state \<Rightarrow> error option \<times> Family list \<times> state" where
  "compareStep L c originalFamilyData originalSislameData sislameData n familyIndex familyItem acc =
     (let grantedFamilies = fst acc;
          st = report_update
                 ((report comparing_data)\<lparr>percentage := Some (of_nat (familyIndex + 1) / of_nat n)\<rparr>)
                 c (snd acc)
      in case findIndex (\<lambda>sislameItem. sameName L familyItem sislameItem
                                       \<and> sameResponsible L familyItem sislameItem) sislameData of
           Some sislameIndex \<Rightarrow>
             (let sislameItem = sislameData ! sislameIndex
              in if \<not> validAge L (field sislameItem ''Data Nascimento'')
                 then (None, grantedFamilies,
                       writeRecords [withReason familyItem sislameOfAgeReason] st)
                 else (case grantDependent L c grantedFamilies familyItem
                              (elemAt originalFamilyData familyIndex)
                              (elemAt originalSislameData sislameIndex) of
                         Inl e \<Rightarrow> (Some e, grantedFamilies, st)
                       | Inr granted' \<Rightarrow> (None, granted', st)))
         | None \<Rightarrow>
             (case find (\<lambda>sislameItem. sameName L familyItem sislameItem) sislameData of
                Some sislameItem \<Rightarrow>
                  (None, grantedFamilies,
                   writeRecords [withReason familyItem wrongResponsibleReason] st)
              | None \<Rightarrow>
                  (None, grantedFamilies,
                   writeRecords [withReason familyItem notInSislameReason] st)))"

fun compareLoop ::
  "lib \<Rightarrow> nat \<Rightarrow> row list \<Rightarrow> row list \<Rightarrow> row list \<Rightarrow> nat \<Rightarrow> (nat \<times> row) list
     \<Rightarrow> Family list \<times> state \<Rightarrow> error option \<times> Family list \<times> state" where
  "compareLoop L c ofd osd sd n [] acc = (None, fst acc, snd acc)"
| "compareLoop L c ofd osd sd n ((familyIndex, familyItem) # rest) acc =
     (case compareStep L c ofd osd sd n familyIndex familyItem acc of
        (Some e, granted, st) \<Rightarrow> (Some e, granted, st)
      | (None, granted, st) \<Rightarrow> compareLoop L c ofd osd sd n rest (granted, st))"

section \<open>The pass over the duplicated dependents\<close>

definition sislamePossibleKeys :: "string list" where
  "sislamePossibleKeys = [''Mae'', ''Nome Responsavel'', ''Pai'']"

text \<open>
  The loop over the possible keys: the first key for which \<open>findIndex\<close> finds an
  enrollment row, with that row's index.
\<close>

fun findSislameKey :: "lib \<Rightarrow> row list \<Rightarrow> row list \<Rightarrow> string list \<Rightarrow> (string \<times> nat) option" where
  "findSislameKey L sislameData duplicatedItens [] = None"
| "findSislameKey L sislameData duplicatedItens (key # keys) =
     (case findIndex
             (\<lambda>sislameItem.
                sameName L (hd duplicatedItens) sislameItem
                \<and> list_ex (\<lambda>familyItem.
                             compareNames L (field sislameItem key) (field familyItem ''TITULAR''))
                     duplicatedItens)
             sislameData of
        Some sislameIndex \<Rightarrow> Some (key, sislameIndex)
      | None \<Rightarrow> findSislameKey L sislameData duplicatedItens keys)"

text \<open>The body of the loop over the rows of one group, once a key and a row were found.\<close>

definition claimantStep ::
  "lib \<Rightarrow> nat \<Rightarrow> row list \<Rightarrow> row list \<Rightarrow> row \<Rightarrow> nat \<Rightarrow> string \<Rightarrow> row
     \<Rightarrow> Family list \<times> state \<Rightarrow> error option \<times> Family list \<times> state" where
  "claimantStep L c originalFamilyData originalSislameData sislameItem sislameIndex foundSislameKey
       familyItem acc =
     (let grantedFamilies = fst acc; st = snd acc
      in if compareNames L (field sislameItem foundSislameKey) (field familyItem ''TITULAR'')
         then (if \<not> validAge L (field sislameItem ''Data Nascimento'')
               then (None, grantedFamilies,
                     writeRecords [withReason familyItem sislameOfAgeReason] st)
               else (let originalFamilyItem =
                           find (\<lambda>item. field item ''NISTITULAR'' = field familyItem ''NISTITULAR'')
                             originalFamilyData
                     in case grantDependent L c grantedFamilies familyItem originalFamilyItem
                               (elemAt originalSislameData sislameIndex) of
                          Inl e \<Rightarrow> (Some e, grantedFamilies, st)
                        | Inr granted' \<Rightarrow> (None, granted', st)))
         else (None, grantedFamilies,
               writeRecords
                 [withReason familyItem
                    (linkedToOtherReason (template (field sislameItem foundSislameKey)))] st))"

fun claimantsLoop ::
  "lib \<Rightarrow> nat \<Rightarrow> row list \<Rightarrow> row list \<Rightarrow> row \<Rightarrow> nat \<Rightarrow> string \<Rightarrow> row list
     \<Rightarrow> Family list \<times> state \<Rightarrow> error option \<times> Family list \<times> state" where
  "claimantsLoop L c ofd osd sislameItem sislameIndex key [] acc = (None, fst acc, snd acc)"
| "claimantsLoop L c ofd osd sislameItem sislameIndex key (familyItem # rest) acc =
     (case claimantStep L c ofd osd sislameItem sislameIndex key familyItem acc of
        (Some e, granted, st) \<Rightarrow> (Some e, granted, st)
      | (None, granted, st) \<Rightarrow>
          claimantsLoop L c ofd osd sislameItem sislameIndex key rest (granted, st))"

text \<open>One turn of the \<open>while\<close> loop, for the group \<open>duplicatedItens\<close>.\<close>

definition resolveGroup ::
  "lib \<Rightarrow> nat \<Rightarrow> row list \<Rightarrow> row list \<Rightarrow> row list \<Rightarrow> row list
     \<Rightarrow> Family list \<times> state \<Rightarrow> error option \<times> Family list \<times> state" where
  "resolveGroup L c originalFamilyData originalSislameData sislameData duplicatedItens acc =
     (case findSislameKey L sislameData duplicatedItens sislamePossibleKeys of
        None \<Rightarrow>
          (None, fst acc,
           writeRecords (map (\<lambda>familyItem. withReason familyItem notInSislameReason) duplicatedItens)
             (snd acc))
      | Some (foundSislameKey, sislameIndex) \<Rightarrow>
          claimantsLoop L c originalFamilyData originalSislameData (sislameData ! sislameIndex)
            sislameIndex foundSislameKey duplicatedItens acc)"

function duplicatedLoop ::
  "lib \<Rightarrow> nat \<Rightarrow> row list \<Rightarrow> row list \<Rightarrow> row list \<Rightarrow> row list
     \<Rightarrow> Family list \<times> state \<Rightarrow> error option \<times> Family list \<times> state" where
  "duplicatedLoop L c ofd osd sd [] acc = (None, fst acc, snd acc)"
| "duplicatedLoop L c ofd osd sd (first # others) acc =
     (case resolveGroup L c ofd osd sd
             (filter (\<lambda>item. field item ''NISDEPENDEN'' = field first ''NISDEPENDEN'')
                (first # others)) acc of
        (Some e, granted, st) \<Rightarrow> (Some e, granted, st)
      | (None, granted, st) \<Rightarrow>
          duplicatedLoop L c ofd osd sd
            (filter (\<lambda>item. field item ''NISDEPENDEN'' \<noteq> field first ''NISDEPENDEN'')
               (first # others))
            (granted, st))"
  by pat_completeness auto
termination
  by (relation "measure (\<lambda>(L, c, ofd, osd, sd, dd, acc). length dd)")
     (auto simp: less_Suc_eq_le)

section \<open>Saving and the whole import\<close>

fun saveLoop ::
  "lib \<Rightarrow> nat \<Rightarrow> nat \<Rightarrow> (nat \<times> Family) list \<Rightarrow> state \<Rightarrow> string option \<times> state" where
  "saveLoop L c n [] st = (None, st)"
| "saveLoop L c n ((index, family) # rest) st =
     (let st1 = report_update
                  ((report saving)\<lparr>percentage := Some (of_nat (index + 1) / of_nat n)\<rparr>) c st;
          st2 = st1\<lparr>certified := certified st1 @ [family]\<rparr>
      in case certifyFamilyAndDependents L family of
           Inl msg \<Rightarrow> (Some msg, st2)
         | Inr dbFamily \<Rightarrow> saveLoop L c n rest st2)"

definition saveFamilies :: "lib \<Rightarrow> nat \<Rightarrow> Family list \<Rightarrow> state \<Rightarrow> error option \<times> state" where
  "saveFamilies L c grantedFamilies st =
     (case saveLoop L c (length grantedFamilies) (enumerate 0 grantedFamilies) st of
        (None, st') \<Rightarrow>
          (None, report_update ((report completed)\<lparr>inProgress := Some False\<rparr>) c st')
      | (Some msg, st') \<Rightarrow> (Some (Thrown msg), report_update (failedReport msg) c st'))"

text \<open>
  The import after the age filter: \<open>originalFamilyData\<close> holds the rows that passed it,
  \<open>originalSislameData\<close> the enrollment rows without repeated lines.
\<close>

definition crossReference ::
  "lib \<Rightarrow> nat \<Rightarrow> row list \<Rightarrow> row list \<Rightarrow> state \<Rightarrow> error option \<times> Family list \<times> state" where
  "crossReference L c originalFamilyData originalSislameData st =
     (let sislameData = deburrData L originalSislameData;
          duplicated = duplicatedDependent (deburrData L originalFamilyData);
          familyData = uniqueDependent (deburrData L originalFamilyData)
      in case compareLoop L c originalFamilyData originalSislameData sislameData
                (length familyData) (enumerate 0 familyData) ([], st) of
           (Some e, granted, st2) \<Rightarrow> (Some e, granted, st2)
         | (None, granted, st2) \<Rightarrow>
             (case duplicatedLoop L c originalFamilyData originalSislameData sislameData
                     duplicated (granted, st2) of
                (Some e, granted', st3) \<Rightarrow> (Some e, granted', st3)
              | (None, granted', st3) \<Rightarrow>
                  (case saveFamilies L c granted' st3 of
                     (err, st4) \<Rightarrow> (err, granted', st4))))"

text \<open>
  The import from the age filter on: \<open>familyRows\<close> and \<open>sislameRows\<close> are the two lists
  after the removal of the repeated lines. The removed rows are written to the reason file
  before the two lists are compared.
\<close>

definition reconcile ::
  "lib \<Rightarrow> nat \<Rightarrow> row list \<Rightarrow> row list \<Rightarrow> state \<Rightarrow> error option \<times> Family list \<times> state" where
  "reconcile L c familyRows originalSislameData st =
     (let originalFamilyData = fst (splitByAge L familyRows);
          removedFamilies = snd (splitByAge L familyRows)
      in crossReference L c originalFamilyData originalSislameData
           (writeRecords removedFamilies st))"

text \<open>
  \<open>familyRows\<close> and \<open>sislameRows\<close> are what csvtojson reads from the two files. The result
  is the error thrown, if any, the list \<open>grantedFamilies\<close> and the state.
\<close>

definition importFamilyFromCadAndSislameCSV ::
  "lib \<Rightarrow> row list \<Rightarrow> row list \<Rightarrow> nat \<Rightarrow> state \<Rightarrow> error option \<times> Family list \<times> state" where
  "importFamilyFromCadAndSislameCSV L familyRows sislameRows c st =
     (let st1 = report_update (report reading_files) c st;
          st2 = report_update (report filtering_data) c st1
      in case checkRequiredSislameData (elemAt sislameRows 0) c st2 of
           (Some e, st3) \<Rightarrow> (Some e, [], st3)
         | (None, st3) \<Rightarrow>
             (case checkRequiredFamilyData (elemAt familyRows 0) c st3 of
                (Some e, st4) \<Rightarrow> (Some e, [], st4)
              | (None, st4) \<Rightarrow>
                  reconcile L c (uniqBy familyRows familyKey) (uniqBy sislameRows sislameKey) st4))"

section \<open>A concrete library and concrete datasets\<close>

text \<open>
  An instance of the library functions for running the import on examples: names match
  when both are present and equal, the accented letters of Portuguese lose their accent,
  a date is ten characters \<open>DD/MM/YYYY\<close> and is counted in days on a grid of twelve months
  of 31 days, and the clock stands at 02/11/2026.
\<close>

definition compareNames0 :: "string option \<Rightarrow> string option \<Rightarrow> bool" where
  "compareNames0 a b = (case a of None \<Rightarrow> False | Some x \<Rightarrow> (case b of None \<Rightarrow> False | Some y \<Rightarrow> x = y))"

definition latinLetter :: "char \<Rightarrow> char option" where
  "latinLetter d =
     map_of [(CHR 0xA0, CHR ''a''), (CHR 0xA1, CHR ''a''), (CHR 0xA2, CHR ''a''), (CHR 0xA3, CHR ''a''),
             (CHR 0xA7, CHR ''c''), (CHR 0xA9, CHR ''e''), (CHR 0xAA, CHR ''e''), (CHR 0xAD, CHR ''i''),
             (CHR 0xB3, CHR ''o''), (CHR 0xB4, CHR ''o''), (CHR 0xB5, CHR ''o''), (CHR 0xBA, CHR ''u'')] d"

fun deburr0 :: "string \<Rightarrow> string" where
  "deburr0 [] = []"
| "deburr0 [c] = [c]"
| "deburr0 (c # d # cs) =
     (if c = CHR 0xC3
      then (case latinLetter d of Some a \<Rightarrow> a # deburr0 cs | None \<Rightarrow> c # deburr0 (d # cs))
      else c # deburr0 (d # cs))"

definition digit :: "char \<Rightarrow> nat option" where
  "digit ch = (let n = (of_char ch :: nat) in if 48 \<le> n \<and> n \<le> 57 then Some (n - 48) else None)"

fun number :: "nat \<Rightarrow> string \<Rightarrow> nat option" where
  "number acc [] = Some acc"
| "number acc (ch # cs) = (case digit ch of None \<Rightarrow> None | Some d \<Rightarrow> number (10 * acc + d) cs)"

definition moment0 :: "string option \<Rightarrow> int option" where
  "moment0 s =
     (case s of
        None \<Rightarrow> None
      | Some t \<Rightarrow>
          if length t = 10 \<and> t ! 2 = CHR ''/'' \<and> t ! 5 = CHR ''/''
          then (case (number 0 (take 2 t), number 0 (take 2 (drop 3 t)), number 0 (drop 6 t)) of
                  (Some d, Some m, Some y) \<Rightarrow>
                    if 1 \<le> d \<and> d \<le> 31 \<and> 1 \<le> m \<and> m \<le> 12
                    then Some (int ((y * 12 + (m - 1)) * 31 + (d - 1)))
                    else None
                | _ \<Rightarrow> None)
          else None)"

definition lib0 :: lib where
  "lib0 = \<lparr>compareNames = compareNames0,
           deburr = deburr0,
           moment = moment0,
           now = (2026 * 12 + 10) * 31 + 1,
           startOfMonth = (\<lambda>t. t - t mod 31),
           diffYears = (\<lambda>a b. if b \<le> a then (a - b) div 372 else - ((b - a) div 372)),
           getFamilyGroupByCode = (\<lambda>code. if code = 0 then Some ''group-0'' else None),
           certifyFamilyAndDependents = Inr\<rparr>"

definition state0 :: state where
  "state0 = \<lparr>importReportList = [], csvRecords = [], certified = []\<rparr>"

text \<open>A benefit row and an enrollment row with the required columns.\<close>

definition familyRow ::
  "string \<Rightarrow> string \<Rightarrow> string \<Rightarrow> string \<Rightarrow> string \<Rightarrow> string \<Rightarrow> row" where
  "familyRow titular dtnasctit nistitular nisdependen dependente dtnascdep =
     [(''TITULAR'', titular), (''DTNASCTIT'', dtnasctit), (''NISTITULAR'', nistitular),
      (''NISDEPENDEN'', nisdependen), (''DEPENDENTE'', dependente), (''DTNASCDEP'', dtnascdep)]"

definition sislameRow :: "string \<Rightarrow> string \<Rightarrow> string \<Rightarrow> string \<Rightarrow> string \<Rightarrow> row" where
  "sislameRow aluno mae pai responsavel nascimento =
     [(''Aluno'', aluno), (Mae_orig, mae), (''Pai'', pai), (Nome_Responsavel_orig, responsavel),
      (''Data Nascimento'', nascimento)]"

definition joseJoao :: row where
  "joseJoao = familyRow ''JOSE SILVA'' ''01/01/1980'' ''100'' ''900'' ''JOAO SILVA'' ''10/03/2015''"

definition mariaJoao :: row where
  "mariaJoao = familyRow ''MARIA SILVA'' ''02/02/1982'' ''200'' ''900'' ''JOAO SILVA'' ''10/03/2015''"

definition joaoEnrolled :: row where
  "joaoEnrolled = sislameRow ''JOAO SILVA'' ''MARIA SILVA'' ''JOSE SILVA'' ''MARIA SILVA'' ''10/03/2015''"

definition joaoOfAna :: row where
  "joaoOfAna = sislameRow ''JOAO SILVA'' ''ANA SILVA'' ''PEDRO SOUZA'' ''ANA SILVA'' ''10/03/2015''"


definition mariaUndated :: row where
  "mariaUndated = familyRow ''MARIA SILVA'' ''sem data'' ''200'' ''900'' ''JOAO SILVA'' ''10/03/2015''"

definition mariaJoaoUndated :: row where
  "mariaJoaoUndated = familyRow ''MARIA SILVA'' ''02/02/1982'' ''200'' ''900'' ''JOAO SILVA'' []"

definition mariaCarlaOfAge :: row where
  "mariaCarlaOfAge = familyRow ''MARIA SILVA'' ''02/02/1982'' ''200'' ''800'' ''CARLA SILVA'' ''05/05/2000''"

definition mariaCarla :: row where
  "mariaCarla = familyRow ''MARIA SILVA'' ''02/02/1982'' ''200'' ''800'' ''CARLA SILVA'' ''05/05/2012''"

definition joaoOfMaria :: row where
  "joaoOfMaria = sislameRow ''JOAO SILVA'' ''MARIA SILVA'' ''PEDRO SOUZA'' ''MARIA SILVA'' ''10/03/2015''"

section \<open>The duplicate resolution as the specification words it\<close>




text \<open>The enrollment birthday is that of a minor at the start of the current month.\<close>

definition enrolledMinor :: "lib \<Rightarrow> row \<Rightarrow> bool" where
  "enrolledMinor L sislameItem =
     (case moment L (map_of sislameItem ''Data Nascimento'') of
        None \<Rightarrow> False
      | Some birth \<Rightarrow> diffYears L (startOfMonth L (now L)) birth < 18)"

text \<open>
  The rejections of a group decided by an enrollment row and a role: every row whose
  responsible does not match the name of the role is written with the reason that the
  dependent is linked to another person, citing that name; a row that matches is written
  only when the enrollment birthday is of age.
\<close>

definition groupRejections :: "lib \<Rightarrow> row \<Rightarrow> string \<Rightarrow> row list \<Rightarrow> row list" where
  "groupRejections L sislameItem role claimants =
     concat (map (\<lambda>familyItem.
                    if compareNames L (map_of sislameItem role) (map_of familyItem ''TITULAR'')
                    then (if enrolledMinor L sislameItem then []
                          else [AList.update ''reason''
                                  (''Dependente n'' @ [CHR 0xC3, CHR 0xA3] @ ''o '' @ [CHR 0xC3, CHR 0xA9]
                                     @ '' menor de idade no Sislame'')
                                  familyItem])
                    else [AList.update ''reason''
                            (''Dependente est'' @ [CHR 0xC3, CHR 0xA1] @ '' vinculado ''
                               @ [CHR 0xC3, CHR 0xA0] @ '' outra pessoa (''
                               @ (case map_of sislameItem role of None \<Rightarrow> ''undefined'' | Some name \<Rightarrow> name)
                               @ '')'')
                            familyItem])
                 claimants)"

text \<open>The rows of the group that win: the responsible matches and the student is a minor.\<close>

definition winners :: "lib \<Rightarrow> row \<Rightarrow> string \<Rightarrow> row list \<Rightarrow> row list" where
  "winners L sislameItem role claimants =
     filter (\<lambda>familyItem. compareNames L (map_of sislameItem role) (map_of familyItem ''TITULAR'')
                          \<and> enrolledMinor L sislameItem)
       claimants"

text \<open>The number of dependents granted, over all families.\<close>

definition grantedCount :: "Family list \<Rightarrow> nat" where
  "grantedCount grantedFamilies = sum_list (map (\<lambda>family. length (dependents family)) grantedFamilies)"



section \<open>Rows that differ in the birthday of the responsible only\<close>

text \<open>
  Two benefit rows with the same columns in the same order and the same values, the value
  of \<open>DTNASCTIT\<close> apart; two families with the same fields, the birthday of the
  responsible apart, whose dependents come from such rows; and the error of a run, an
  error thrown by the persistence call apart (that call receives the birthdays).
\<close>

definition sameButBirthday :: "row \<Rightarrow> row \<Rightarrow> bool" where
  "sameButBirthday r r' =
     list_all2 (\<lambda>p q. fst p = fst q \<and> (fst p = ''DTNASCTIT'' \<or> snd p = snd q)) r r'"

definition sameFamilyButBirthday :: "Family \<Rightarrow> Family \<Rightarrow> bool" where
  "sameFamilyButBirthday f f' =
     (responsibleNis f = responsibleNis f'
      \<and> responsibleName f = responsibleName f'
      \<and> responsibleMotherName f = responsibleMotherName f'
      \<and> code f = code f'
      \<and> groupName f = groupName f'
      \<and> familyCityId f = familyCityId f'
      \<and> list_all2 (\<lambda>d d'. sameButBirthday (fst d) (fst d') \<and> snd d = snd d')
           (dependents f) (dependents f'))"

definition notThrownBySaving :: "error option \<Rightarrow> error option" where
  "notThrownBySaving e = (case e of Some (Thrown msg) \<Rightarrow> None | _ \<Rightarrow> e)"

text \<open>
  Two outcomes of a part of the import agree when they throw the same error, grant the
  same dependents to the same families and write the same records, the birthday of the
  responsible apart.
\<close>

definition sameOutcome ::
  "error option \<times> Family list \<times> state \<Rightarrow> error option \<times> Family list \<times> state \<Rightarrow> bool" where
  "sameOutcome x y =
     (fst x = fst y
      \<and> list_all2 sameFamilyButBirthday (fst (snd x)) (fst (snd y))
      \<and> list_all2 sameButBirthday (csvRecords (snd (snd x))) (csvRecords (snd (snd y))))"

definition sameOutcomeButSaving ::
  "error option \<times> Family list \<times> state \<Rightarrow> error option \<times> Family list \<times> state \<Rightarrow> bool" where
  "sameOutcomeButSaving x y =
     (notThrownBySaving (fst x) = notThrownBySaving (fst y)
      \<and> list_all2 sameFamilyButBirthday (fst (snd x)) (fst (snd y))
      \<and> list_all2 sameButBirthday (csvRecords (snd (snd x))) (csvRecords (snd (snd y))))"

section \<open>Searching lists\<close>

lemma findIndex_None_iff: "findIndex p xs = None \<longleftrightarrow> (\<forall>x\<in>set xs. \<not> p x)"
  by (induction xs) auto

lemma findIndex_Some_less: "findIndex p xs = Some i \<Longrightarrow> i < length xs \<and> p (xs ! i)"
  by (induction xs arbitrary: i) (auto split: if_splits)

lemma find_append_last: "(\<forall>x\<in>set xs. \<not> p x) \<Longrightarrow> p y \<Longrightarrow> find p (xs @ [y]) = Some y"
  by (induction xs) auto

section \<open>The report registry holds one report per city\<close>

lemma removed_no_report:
  "distinct (map cityId l) \<Longrightarrow>
   \<forall>x\<in>set (case findIndex (\<lambda>item. cityId item = Some c) l of
               None \<Rightarrow> l | Some index \<Rightarrow> splice1 index l).
      cityId x \<noteq> Some c"
proof (induction l)
  case Nil
  then show ?case by simp
next
  case (Cons x xs)
  show ?case
  proof (cases "cityId x = Some c")
    case True
    with Cons.prems show ?thesis by (force simp: splice1_def)
  next
    case False
    with Cons show ?thesis
      by (cases "findIndex (\<lambda>item. cityId item = Some c) xs") (auto simp: splice1_def)
  qed
qed

lemma removed_distinct:
  "distinct (map cityId l) \<Longrightarrow>
   distinct (map cityId (case findIndex (\<lambda>item. cityId item = Some c) l of
                           None \<Rightarrow> l | Some index \<Rightarrow> splice1 index l))"
proof (induction l)
  case Nil
  then show ?case by simp
next
  case (Cons x xs)
  show ?case
  proof (cases "cityId x = Some c")
    case True
    with Cons.prems show ?thesis by (auto simp: splice1_def)
  next
    case False
    show ?thesis
    proof (cases "findIndex (\<lambda>item. cityId item = Some c) xs")
      case None
      with False Cons.prems show ?thesis by simp
    next
      case (Some i)
      have "set (splice1 i xs) \<subseteq> set xs"
        unfolding splice1_def using set_take_subset set_drop_subset by fastforce
      with False Some Cons show ?thesis
        by (auto simp: splice1_def)
    qed
  qed
qed

lemma updateImportReport_eq:
  "updateImportReport r c l =
     (case findIndex (\<lambda>item. cityId item = Some c) l of
        None \<Rightarrow> l | Some index \<Rightarrow> splice1 index l) @ [stored r c]"
  by (simp add: updateImportReport_def stored_def Let_def)

lemma getImportReport_updated:
  assumes "distinct (map cityId l)"
  shows "getImportReport (updateImportReport r c l) c = stored r c"
  unfolding getImportReport_def updateImportReport_eq
  using removed_no_report [OF assms, of c]
  by (simp add: find_append_last stored_def)

lemma updateImportReport_distinct:
  assumes "distinct (map cityId l)"
  shows "distinct (map cityId (updateImportReport r c l))"
  unfolding updateImportReport_eq
  using removed_no_report [OF assms, of c] removed_distinct [OF assms, of c]
  by (auto simp: stored_def)

lemma registryAfter_distinct: "distinct (map cityId (registryAfter updates))"
proof -
  have "distinct (map cityId l) \<Longrightarrow>
        distinct (map cityId (foldl (\<lambda>l (r, c). updateImportReport r c l) l updates))" for l
    by (induction updates arbitrary: l) (auto simp: updateImportReport_distinct)
  then show ?thesis by (simp add: registryAfter_def)
qed

text \<open>
  C8. Updating the report of a city replaces the stored report wholesale: in a registry
  with at most one report per city (as every registry built by \<open>updateImportReport\<close> is,
  and stays), the report read back afterwards is the new report with the city and the
  defaulted \<open>inProgress\<close>, it is the only report stored for the city, and nothing of the
  previous report is in it. Reading the report of a city that has none gives the default
  report, idle and not in progress.
\<close>

theorem report_replaced_wholesale:
  assumes "distinct (map cityId l)"
  shows "getImportReport (updateImportReport r c l) c = stored r c
       \<and> filter (\<lambda>item. cityId item = Some c) (updateImportReport r c l) = [stored r c]
       \<and> distinct (map cityId (updateImportReport r c l))
       \<and> (find (\<lambda>item. cityId item = Some c) l = None \<longrightarrow>
            getImportReport l c =
              \<lparr>status = idle, message = None, percentage = None,
               cityId = Some c, inProgress = Some False\<rparr>)"
proof -
  have c1: "getImportReport (updateImportReport r c l) c = stored r c"
    using assms by (rule getImportReport_updated)
  have c2: "filter (\<lambda>item. cityId item = Some c) (updateImportReport r c l) = [stored r c]"
    unfolding updateImportReport_eq using removed_no_report [OF assms, of c]
    by (simp add: stored_def)
  have c3: "distinct (map cityId (updateImportReport r c l))"
    using assms by (rule updateImportReport_distinct)
  have c4: "find (\<lambda>item. cityId item = Some c) l = None \<longrightarrow>
            getImportReport l c =
              \<lparr>status = idle, message = None, percentage = None,
               cityId = Some c, inProgress = Some False\<rparr>"
    by (simp add: getImportReport_def)
  from c1 c2 c3 c4 show ?thesis by blast
qed

theorem report_replaced_wholesale_witness:
  "distinct (map cityId [\<lparr>status = saving, message = Some ''m'', percentage = Some (1 / 2),
                          cityId = Some 7, inProgress = Some True\<rparr>])
   \<and> getImportReport
        (updateImportReport (report completed)
           7 [\<lparr>status = saving, message = Some ''m'', percentage = Some (1 / 2),
                cityId = Some 7, inProgress = Some True\<rparr>]) 7
       = \<lparr>status = completed, message = None, percentage = None,
          cityId = Some 7, inProgress = Some True\<rparr>
   \<and> find (\<lambda>item. cityId item = Some 3)
        [\<lparr>status = saving, message = Some ''m'', percentage = Some (1 / 2),
          cityId = Some 7, inProgress = Some True\<rparr>] = None
   \<and> getImportReport
        [\<lparr>status = saving, message = Some ''m'', percentage = Some (1 / 2),
          cityId = Some 7, inProgress = Some True\<rparr>] 3
       = \<lparr>status = idle, message = None, percentage = None,
          cityId = Some 3, inProgress = Some False\<rparr>"
  using report_replaced_wholesale
          [of "[\<lparr>status = saving, message = Some ''m'', percentage = Some (1 / 2),
                 cityId = Some 7, inProgress = Some True\<rparr>]" "report completed" 7]
        report_replaced_wholesale
          [of "[\<lparr>status = saving, message = Some ''m'', percentage = Some (1 / 2),
                 cityId = Some 7, inProgress = Some True\<rparr>]" "report completed" 3]
  by (simp add: stored_def report_def)

section \<open>The age filter\<close>

lemma splitByAge_foldl:
  "foldl (\<lambda>(valid, invalid) item.
              if \<not> validAge L (field item ''DTNASCDEP'')
              then (valid, invalid @ [withReason item ofAgeReason])
              else (valid @ [item], invalid))
      (v, iv) rows
   = (v @ filter (\<lambda>item. validAge L (field item ''DTNASCDEP'')) rows,
      iv @ map (\<lambda>item. withReason item ofAgeReason)
             (filter (\<lambda>item. \<not> validAge L (field item ''DTNASCDEP'')) rows))"
  by (induction rows arbitrary: v iv) auto

lemma splitByAge_eq:
  "splitByAge L rows
   = (filter (\<lambda>item. validAge L (field item ''DTNASCDEP'')) rows,
      map (\<lambda>item. withReason item ofAgeReason)
        (filter (\<lambda>item. \<not> validAge L (field item ''DTNASCDEP'')) rows))"
  unfolding splitByAge_def by (simp add: splitByAge_foldl)

section \<open>The reason file only grows\<close>

lemma csv_report_update [simp]: "csvRecords (report_update r c st) = csvRecords st"
  by (simp add: report_update_def)

lemma csv_writeRecords [simp]: "csvRecords (writeRecords rs st) = csvRecords st @ rs"
  by (simp add: writeRecords_def)







lemma saveLoop_csv: "saveLoop L c n items st = (err, st') \<Longrightarrow> csvRecords st' = csvRecords st"
  by (induction items arbitrary: st) (auto simp: Let_def split: sum.splits)

lemma saveFamilies_csv: "saveFamilies L c granted st = (err, st') \<Longrightarrow> csvRecords st' = csvRecords st"
  by (auto simp: saveFamilies_def split: prod.splits option.splits dest: saveLoop_csv)


lemma reason_of_withReason: "map_of (withReason item r) k = (if k = ''reason'' then Some r else map_of item k)"
  by (simp add: withReason_def AList.update_conv')


section \<open>Rejections of the loop over the benefit rows\<close>

text \<open>
  C4, as amended. A benefit row for which no enrollment row matches on the dependent's name
  and on the responsible's name, while some enrollment row matches on the dependent's name
  alone, is rejected: the row is written once, with the fixed reason that a student of the
  same name has a different responsible, whoever that responsible is, and no family is
  granted.
\<close>

theorem wrong_responsible_rejection:
  assumes "\<forall>s\<in>set sislameData. \<not> (sameName L familyItem s \<and> sameResponsible L familyItem s)"
      and "\<exists>s\<in>set sislameData. sameName L familyItem s"
  shows "compareStep L c ofd osd sislameData n i familyItem (granted, st)
         = (None, granted,
            writeRecords [withReason familyItem wrongResponsibleReason]
              (report_update
                 ((report comparing_data)\<lparr>percentage := Some (of_nat (i + 1) / of_nat n)\<rparr>) c st))"
proof -
  have none: "findIndex (\<lambda>s. sameName L familyItem s \<and> sameResponsible L familyItem s) sislameData = None"
    using assms(1) by (simp add: findIndex_None_iff)
  from assms(2) obtain s where "find (\<lambda>s. sameName L familyItem s) sislameData = Some s"
    by (cases "find (\<lambda>s. sameName L familyItem s) sislameData") (auto simp: find_None_iff)
  with none show ?thesis
    by (simp add: compareStep_def Let_def)
qed

section \<open>Running the import on the concrete datasets\<close>

lemmas row_defs = joseJoao_def mariaJoao_def joaoEnrolled_def joaoOfAna_def familyRow_def sislameRow_def Mae_orig_def Nome_Responsavel_orig_def
lemmas lib_defs = lib0_def compareNames0_def latinLetter_def moment0_def digit_def
lemmas model_defs = importFamilyFromCadAndSislameCSV_def reconcile_def crossReference_def saveFamilies_def resolveGroup_def claimantStep_def
  compareStep_def grantDependent_def parseFamilyItem_def parseFamilyAndSislameItems_def validAge_def toDate_def
  splitByAge_def deburrData_def deburrItem_def duplicatedDependent_def uniqueDependent_def uniqBy_def familyKey_def sislameKey_def
  checkRequiredSislameData_def checkRequiredFamilyData_def sislameRequiredKeys_def familyRequiredKeys_def Object_keys_def
  field_def template_def withReason_def elemAt_def report_update_def writeRecords_def updateImportReport_def splice1_def
  report_def failedReport_def sameName_def sameResponsible_def sislamePossibleKeys_def state0_def enumerate_eq_zip

theorem wrong_responsible_rejection_witness:
  "list_all (\<lambda>s. \<not> (sameName lib0 mariaJoao s \<and> sameResponsible lib0 mariaJoao s))
     (deburrData lib0 [joaoOfAna])
   \<and> list_ex (sameName lib0 mariaJoao) (deburrData lib0 [joaoOfAna])
   \<and> compareStep lib0 7 [mariaJoao] [joaoOfAna] (deburrData lib0 [joaoOfAna]) 1 0 mariaJoao ([], state0)
     = (None, [],
        writeRecords [withReason mariaJoao wrongResponsibleReason]
          (report_update ((report comparing_data)\<lparr>percentage := Some 1\<rparr>) 7 state0))"
proof -
  have h1: "\<forall>s\<in>set (deburrData lib0 [joaoOfAna]).
       \<not> (sameName lib0 mariaJoao s \<and> sameResponsible lib0 mariaJoao s)"
    by (simp add: model_defs lib_defs row_defs)
  have h2: "\<exists>s\<in>set (deburrData lib0 [joaoOfAna]). sameName lib0 mariaJoao s"
    by (simp add: model_defs lib_defs row_defs)
  have "compareStep lib0 7 [mariaJoao] [joaoOfAna] (deburrData lib0 [joaoOfAna]) 1 0 mariaJoao ([], state0)
     = (None, [],
        writeRecords [withReason mariaJoao wrongResponsibleReason]
          (report_update ((report comparing_data)\<lparr>percentage := Some 1\<rparr>) 7 state0))"
    using wrong_responsible_rejection [OF h1 h2, of 7 "[mariaJoao]" "[joaoOfAna]" 1 0 "[]" state0]
    by simp
  with h1 h2 show ?thesis by (simp add: list_all_iff list_ex_iff)
qed

text \<open>
  The reason written for such a row does not name the responsible found in the enrollment
  row: with the mother \<open>ANA SILVA\<close> in the enrollment row, the reason is the fixed text.
\<close>

lemma wrongResponsibleReason_not_ana: "\<not> includesStr wrongResponsibleReason ''ANA SILVA''"
  by (simp add: wrongResponsibleReason_def)

lemma import_maria_ana:
  "map (\<lambda>r. field r ''reason'')
     (csvRecords (snd (snd (importFamilyFromCadAndSislameCSV lib0 [mariaJoao] [joaoOfAna] 7 state0))))
   = [Some wrongResponsibleReason]
   \<and> field joaoOfAna Mae_orig = Some ''ANA SILVA''"
  by (simp add: model_defs lib_defs row_defs)

theorem reason_does_not_name_guardian:
  "map (\<lambda>r. field r ''reason'')
     (csvRecords (snd (snd (importFamilyFromCadAndSislameCSV lib0 [mariaJoao] [joaoOfAna] 7 state0))))
   = [Some wrongResponsibleReason]
   \<and> field joaoOfAna Mae_orig = Some ''ANA SILVA''
   \<and> \<not> includesStr wrongResponsibleReason ''ANA SILVA''"
  using import_maria_ana wrongResponsibleReason_not_ana by blast

section \<open>Missing columns\<close>








lemma report_update_others [simp]:
  "certified (report_update r c st) = certified st"
  by (simp add: report_update_def)




section \<open>The import does not read the birthday of the responsible\<close>

lemma sameButBirthday_refl [simp]: "sameButBirthday r r"
  by (simp add: sameButBirthday_def list_all2_same)

lemma sameButBirthday_field:
  assumes "sameButBirthday r r'" and "k \<noteq> ''DTNASCTIT''"
  shows "field r k = field r' k"
  using assms unfolding sameButBirthday_def field_def
  by (induction rule: list_all2_induct) (auto simp: prod_eq_iff)

lemma sameButBirthday_keys: "sameButBirthday r r' \<Longrightarrow> Object_keys r = Object_keys r'"
  unfolding sameButBirthday_def Object_keys_def
  by (induction rule: list_all2_induct) auto

lemma sameButBirthday_update:
  assumes "sameButBirthday a a'" and "k = ''DTNASCTIT'' \<or> x = y"
  shows "sameButBirthday (AList.update k x a) (AList.update k y a')"
  using assms unfolding sameButBirthday_def
  by (induction rule: list_all2_induct) auto

lemma sameButBirthday_withReason: "sameButBirthday r r' \<Longrightarrow> sameButBirthday (withReason r x) (withReason r' x)"
  by (simp add: withReason_def sameButBirthday_update)

lemma sameButBirthday_deburr_foldl:
  assumes "deburr L ''DTNASCTIT'' = ''DTNASCTIT''"
  shows "list_all2 (\<lambda>p q. fst p = fst q \<and> (fst p = ''DTNASCTIT'' \<or> snd p = snd q)) r r' \<Longrightarrow>
         sameButBirthday a a' \<Longrightarrow>
         sameButBirthday (foldl (\<lambda>obj (k, v). AList.update (deburr L k) (deburr L v) obj) a r)
                         (foldl (\<lambda>obj (k, v). AList.update (deburr L k) (deburr L v) obj) a' r')"
proof (induction arbitrary: a a' rule: list_all2_induct)
  case Nil
  then show ?case by simp
next
  case (Cons p ps q qs)
  obtain k v where p: "p = (k, v)" by (cases p)
  obtain k' v' where q: "q = (k', v')" by (cases q)
  from Cons.hyps(1) p q have kk: "k' = k" and kv: "k = ''DTNASCTIT'' \<or> v = v'" by auto
  have "deburr L k = ''DTNASCTIT'' \<or> deburr L v = deburr L v'"
    using kv assms by auto
  from sameButBirthday_update [OF Cons.prems this]
  have "sameButBirthday (AList.update (deburr L k) (deburr L v) a)
                        (AList.update (deburr L k) (deburr L v') a')" .
  from Cons.IH [OF this] show ?case by (simp add: p q kk)
qed

lemma sameButBirthday_deburrItem:
  assumes "deburr L ''DTNASCTIT'' = ''DTNASCTIT''" and "sameButBirthday r r'"
  shows "sameButBirthday (deburrItem L r) (deburrItem L r')"
  unfolding deburrItem_def
  using sameButBirthday_deburr_foldl [OF assms(1) assms(2) [unfolded sameButBirthday_def], of "[]" "[]"]
  by simp

lemma sameButBirthday_deburrData:
  assumes "deburr L ''DTNASCTIT'' = ''DTNASCTIT''" and "list_all2 sameButBirthday rows rows'"
  shows "list_all2 sameButBirthday (deburrData L rows) (deburrData L rows')"
  using assms(2) unfolding deburrData_def
  by (induction rule: list_all2_induct) (auto simp: sameButBirthday_deburrItem [OF assms(1)])

subsection \<open>Lists related element by element\<close>

lemma uniqByFrom_rel:
  assumes "list_all2 R xs ys" and "\<And>x y. R x y \<Longrightarrow> f x = g y"
  shows "list_all2 R (uniqByFrom seen f xs) (uniqByFrom seen g ys)"
  using assms(1)
proof (induction arbitrary: seen rule: list_all2_induct)
  case Nil
  then show ?case by simp
next
  case (Cons x xs y ys)
  from assms(2) [OF Cons.hyps(1)] have "f x = g y" .
  with Cons show ?case by simp
qed

lemma filter_rel:
  assumes "list_all2 R xs ys" and "\<And>x y. R x y \<Longrightarrow> p x = q y"
  shows "list_all2 R (filter p xs) (filter q ys)"
  using assms(1)
proof (induction rule: list_all2_induct)
  case Nil
  then show ?case by simp
next
  case (Cons x xs y ys)
  from assms(2) [OF Cons.hyps(1)] have "p x = q y" .
  with Cons show ?case by simp
qed

lemma find_rel:
  assumes "list_all2 R xs ys" and "\<And>x y. R x y \<Longrightarrow> p x = q y"
  shows "rel_option R (find p xs) (find q ys)"
  using assms(1)
proof (induction rule: list_all2_induct)
  case Nil
  then show ?case by simp
next
  case (Cons x xs y ys)
  from assms(2) [OF Cons.hyps(1)] have "p x = q y" .
  with Cons show ?case by simp
qed

lemma findIndex_rel:
  assumes "list_all2 R xs ys" and "\<And>x y. R x y \<Longrightarrow> p x = q y"
  shows "findIndex p xs = findIndex q ys"
  using assms(1)
proof (induction rule: list_all2_induct)
  case Nil
  then show ?case by simp
next
  case (Cons x xs y ys)
  from assms(2) [OF Cons.hyps(1)] have "p x = q y" .
  with Cons show ?case by simp
qed

lemma list_ex_rel:
  assumes "list_all2 R xs ys" and "\<And>x y. R x y \<Longrightarrow> p x = q y"
  shows "list_ex p xs = list_ex q ys"
  using assms(1)
proof (induction rule: list_all2_induct)
  case Nil
  then show ?case by simp
next
  case (Cons x xs y ys)
  from assms(2) [OF Cons.hyps(1)] have "p x = q y" .
  with Cons show ?case by simp
qed

lemma elemAt_rel:
  "list_all2 R xs ys \<Longrightarrow> rel_option R (elemAt xs i) (elemAt ys i)"
  by (auto simp: elemAt_def list_all2_lengthD list_all2_nthD)

lemma enumerate_rel:
  "list_all2 R xs ys \<Longrightarrow>
   list_all2 (\<lambda>p q. fst p = fst q \<and> R (snd p) (snd q)) (enumerate n xs) (enumerate n ys)"
proof (induction arbitrary: n rule: list_all2_induct)
  case Nil
  then show ?case by simp
next
  case (Cons x xs y ys)
  then show ?case by simp
qed


subsection \<open>The steps of the import on rows that differ in the birthday only\<close>

lemma parseFamilyItem_rel:
  assumes "sameButBirthday r r'"
  shows "rel_sum (=) sameFamilyButBirthday (parseFamilyItem L r c) (parseFamilyItem L r' c)"
  using sameButBirthday_field [OF assms, of "''NISTITULAR''"] sameButBirthday_field [OF assms, of "''TITULAR''"]
  by (simp add: parseFamilyItem_def sameFamilyButBirthday_def split: option.split)

lemma grantDependent_rel:
  assumes fi: "sameButBirthday fi fi'" and o: "rel_option sameButBirthday orig orig'"
    and g: "list_all2 sameFamilyButBirthday g g'"
  shows "rel_sum (=) (list_all2 sameFamilyButBirthday)
           (grantDependent L c g fi orig s) (grantDependent L c g' fi' orig' s)"
proof -
  have nis: "field fi ''NISTITULAR'' = field fi' ''NISTITULAR''"
    by (rule sameButBirthday_field [OF fi]) simp
  have idx: "findIndex (\<lambda>family. responsibleNis family = field fi ''NISTITULAR'') g
           = findIndex (\<lambda>family. responsibleNis family = field fi' ''NISTITULAR'') g'"
    by (rule findIndex_rel [OF g]) (simp add: sameFamilyButBirthday_def nis)
  show ?thesis
  proof (cases orig)
    case None
    with o have "orig' = None" by simp
    with None show ?thesis by (simp add: grantDependent_def parseFamilyAndSislameItems_def)
  next
    case (Some r)
    with o obtain r' where r': "orig' = Some r'" "sameButBirthday r r'"
      by (cases orig') auto
    show ?thesis
    proof (cases s)
      case None
      then show ?thesis
        by (simp add: grantDependent_def parseFamilyAndSislameItems_def Some r'(1))
    next
      case e: (Some e)
      show ?thesis
      proof (cases "findIndex (\<lambda>family. responsibleNis family = field fi' ''NISTITULAR'') g'")
        case None
        have l: "grantDependent L c g fi orig s
                 = (case parseFamilyItem L r c of Inl x \<Rightarrow> Inl x
                    | Inr family \<Rightarrow> Inr (g @ [family\<lparr>dependents := [(r, e)]\<rparr>]))"
          by (simp add: grantDependent_def parseFamilyAndSislameItems_def Some e idx None)
        have r: "grantDependent L c g' fi' orig' s
                 = (case parseFamilyItem L r' c of Inl x \<Rightarrow> Inl x
                    | Inr family \<Rightarrow> Inr (g' @ [family\<lparr>dependents := [(r', e)]\<rparr>]))"
          by (simp add: grantDependent_def parseFamilyAndSislameItems_def r'(1) e None)
        from parseFamilyItem_rel [OF r'(2), of L c] show ?thesis
          unfolding l r
          by (cases rule: rel_sum.cases)
             (simp_all add: list_all2_appendI g sameFamilyButBirthday_def r'(2))
      next
        case j: (Some j)
        from findIndex_Some_less [OF j] have j': "j < length g'" by simp
        with g have jl: "j < length g" by (simp add: list_all2_lengthD)
        from g jl have gj: "sameFamilyButBirthday (g ! j) (g' ! j)" by (rule list_all2_nthD)
        have l: "grantDependent L c g fi orig s
                 = Inr (g[j := (g ! j)\<lparr>dependents := dependents (g ! j) @ [(r, e)]\<rparr>])"
          by (simp add: grantDependent_def parseFamilyAndSislameItems_def Some e idx j Let_def)
        have r: "grantDependent L c g' fi' orig' s
                 = Inr (g'[j := (g' ! j)\<lparr>dependents := dependents (g' ! j) @ [(r', e)]\<rparr>])"
          by (simp add: grantDependent_def parseFamilyAndSislameItems_def r'(1) e j Let_def)
        have "sameFamilyButBirthday ((g ! j)\<lparr>dependents := dependents (g ! j) @ [(r, e)]\<rparr>)
                ((g' ! j)\<lparr>dependents := dependents (g' ! j) @ [(r', e)]\<rparr>)"
          using gj by (simp add: sameFamilyButBirthday_def list_all2_appendI r'(2))
        with g show ?thesis unfolding l r by (simp add: list_all2_update_cong)
      qed
    qed
  qed
qed

lemma sameOutcome_write:
  assumes "list_all2 sameFamilyButBirthday g g'"
    and "list_all2 sameButBirthday (csvRecords st) (csvRecords st')"
    and "list_all2 sameButBirthday rs rs'"
  shows "sameOutcome (None, g, writeRecords rs st) (None, g', writeRecords rs' st')"
  using assms by (simp add: sameOutcome_def list_all2_appendI)

lemma sameOutcome_grant:
  assumes "rel_sum (=) (list_all2 sameFamilyButBirthday) x y"
    and "list_all2 sameFamilyButBirthday g g'"
    and "list_all2 sameButBirthday (csvRecords st) (csvRecords st')"
  shows "sameOutcome (case x of Inl e \<Rightarrow> (Some e, g, st) | Inr granted' \<Rightarrow> (None, granted', st))
           (case y of Inl e \<Rightarrow> (Some e, g', st') | Inr granted' \<Rightarrow> (None, granted', st'))"
  using assms by (cases rule: rel_sum.cases) (simp_all add: sameOutcome_def)

lemma compareStep_rel:
  assumes fi: "sameButBirthday fi fi'" and ofd: "list_all2 sameButBirthday ofd ofd'"
    and g: "list_all2 sameFamilyButBirthday g g'"
    and s: "list_all2 sameButBirthday (csvRecords st) (csvRecords st')"
  shows "sameOutcome (compareStep L c ofd osd sd n i fi (g, st))
           (compareStep L c ofd' osd sd n i fi' (g', st'))"
proof -
  have dep: "field fi ''DEPENDENTE'' = field fi' ''DEPENDENTE''"
    by (rule sameButBirthday_field [OF fi]) simp
  have tit: "field fi ''TITULAR'' = field fi' ''TITULAR''"
    by (rule sameButBirthday_field [OF fi]) simp
  have sn: "sameName L fi = sameName L fi'"
    by (simp add: sameName_def dep fun_eq_iff)
  have sr: "sameResponsible L fi = sameResponsible L fi'"
    by (simp add: sameResponsible_def tit fun_eq_iff)
  define r where "r = (report comparing_data)\<lparr>percentage := Some (of_nat (i + 1) / of_nat n)\<rparr>"
  have s': "list_all2 sameButBirthday (csvRecords (report_update r c st))
              (csvRecords (report_update r c st'))"
    using s by simp
  have w: "list_all2 sameButBirthday [withReason fi x] [withReason fi' x]" for x
    by (simp add: sameButBirthday_withReason [OF fi])
  show ?thesis
  proof (cases "findIndex (\<lambda>sislameItem. sameName L fi' sislameItem
                                         \<and> sameResponsible L fi' sislameItem) sd")
    case None
    show ?thesis
    proof (cases "find (\<lambda>sislameItem. sameName L fi' sislameItem) sd")
      case n: None
      show ?thesis
        using sameOutcome_write [OF g s' w]
        by (simp add: compareStep_def sn sr None n r_def)
    next
      case (Some a)
      show ?thesis
        using sameOutcome_write [OF g s' w]
        by (simp add: compareStep_def sn sr None Some r_def)
    qed
  next
    case (Some k)
    show ?thesis
    proof (cases "validAge L (field (sd ! k) ''Data Nascimento'')")
      case False
      show ?thesis
        using sameOutcome_write [OF g s' w]
        by (simp add: compareStep_def sn sr Some False r_def)
    next
      case True
      show ?thesis
        unfolding compareStep_def Let_def fst_conv snd_conv r_def [symmetric]
        using sameOutcome_grant
                [OF grantDependent_rel [OF fi elemAt_rel [OF ofd] g, of L c i "elemAt osd k"] g s']
        by (simp add: sn sr Some True)
    qed
  qed
qed

lemma sameOutcome_cases:
  assumes "sameOutcome x y"
  obtains (thrown) e g st g' st' where "x = (Some e, g, st)" and "y = (Some e, g', st')"
  | (passed) g st g' st' where "x = (None, g, st)" and "y = (None, g', st')"
      and "list_all2 sameFamilyButBirthday g g'"
      and "list_all2 sameButBirthday (csvRecords st) (csvRecords st')"
proof -
  obtain e g st where x: "x = (e, g, st)" by (cases x)
  obtain e' g' st' where y: "y = (e', g', st')" by (cases y)
  from assms x y have ee: "e' = e" and gg: "list_all2 sameFamilyButBirthday g g'"
    and ss: "list_all2 sameButBirthday (csvRecords st) (csvRecords st')"
    by (simp_all add: sameOutcome_def)
  show thesis
  proof (cases e)
    case None
    with x y ee gg ss passed show ?thesis by simp
  next
    case (Some a)
    with x y ee thrown show ?thesis by simp
  qed
qed

lemma sameOutcome_thrown:
  "sameOutcome (Some e, g, st) (Some e, g', st') \<longleftrightarrow>
     list_all2 sameFamilyButBirthday g g'
     \<and> list_all2 sameButBirthday (csvRecords st) (csvRecords st')"
  by (simp add: sameOutcome_def)

lemma compareLoop_rel:
  assumes "list_all2 (\<lambda>p q. fst p = fst q \<and> sameButBirthday (snd p) (snd q)) xs xs'"
    and "list_all2 sameButBirthday ofd ofd'"
  shows "list_all2 sameFamilyButBirthday g g' \<Longrightarrow>
         list_all2 sameButBirthday (csvRecords st) (csvRecords st') \<Longrightarrow>
         sameOutcome (compareLoop L c ofd osd sd n xs (g, st))
           (compareLoop L c ofd' osd sd n xs' (g', st'))"
  using assms(1)
proof (induction arbitrary: g g' st st' rule: list_all2_induct)
  case Nil
  then show ?case by (simp add: sameOutcome_def)
next
  case (Cons p ps q qs)
  obtain i fi where p: "p = (i, fi)" by (cases p)
  obtain i' fi' where q: "q = (i', fi')" by (cases q)
  from Cons.hyps(1) p q have ii: "i' = i" and fi: "sameButBirthday fi fi'" by simp_all
  have step: "sameOutcome (compareStep L c ofd osd sd n i fi (g, st))
                (compareStep L c ofd' osd sd n i fi' (g', st'))"
    by (rule compareStep_rel [OF fi assms(2) Cons.prems])
  show ?case
  proof (cases rule: sameOutcome_cases [OF step])
    case (1 e g1 st1 g1' st1')
    with step show ?thesis by (simp add: p q ii)
  next
    case (2 g1 st1 g1' st1')
    from Cons.IH [OF 2(3) 2(4)] show ?thesis by (simp add: p q ii 2(1) 2(2))
  qed
qed

lemma claimantStep_rel:
  assumes fi: "sameButBirthday fi fi'" and ofd: "list_all2 sameButBirthday ofd ofd'"
    and g: "list_all2 sameFamilyButBirthday g g'"
    and s: "list_all2 sameButBirthday (csvRecords st) (csvRecords st')"
  shows "sameOutcome (claimantStep L c ofd osd si k key fi (g, st))
           (claimantStep L c ofd' osd si k key fi' (g', st'))"
proof -
  have tit: "field fi ''TITULAR'' = field fi' ''TITULAR''"
    by (rule sameButBirthday_field [OF fi]) simp
  have nis: "field fi ''NISTITULAR'' = field fi' ''NISTITULAR''"
    by (rule sameButBirthday_field [OF fi]) simp
  have w: "list_all2 sameButBirthday [withReason fi x] [withReason fi' x]" for x
    by (simp add: sameButBirthday_withReason [OF fi])
  have f: "rel_option sameButBirthday
             (find (\<lambda>item. field item ''NISTITULAR'' = field fi' ''NISTITULAR'') ofd)
             (find (\<lambda>item. field item ''NISTITULAR'' = field fi' ''NISTITULAR'') ofd')"
    by (rule find_rel [OF ofd]) (simp add: sameButBirthday_field)
  show ?thesis
  proof (cases "compareNames L (field si key) (field fi' ''TITULAR'')")
    case False
    show ?thesis
      using sameOutcome_write [OF g s w]
      by (simp add: claimantStep_def tit False)
  next
    case True
    show ?thesis
    proof (cases "validAge L (field si ''Data Nascimento'')")
      case v: False
      show ?thesis
        using sameOutcome_write [OF g s w]
        by (simp add: claimantStep_def tit True v)
    next
      case v: True
      show ?thesis
        using sameOutcome_grant [OF grantDependent_rel [OF fi f g, of L c "elemAt osd k"] g s]
        by (simp add: claimantStep_def tit nis True v)
    qed
  qed
qed

lemma claimantsLoop_rel:
  assumes "list_all2 sameButBirthday xs xs'"
    and "list_all2 sameButBirthday ofd ofd'"
  shows "list_all2 sameFamilyButBirthday g g' \<Longrightarrow>
         list_all2 sameButBirthday (csvRecords st) (csvRecords st') \<Longrightarrow>
         sameOutcome (claimantsLoop L c ofd osd si k key xs (g, st))
           (claimantsLoop L c ofd' osd si k key xs' (g', st'))"
  using assms(1)
proof (induction arbitrary: g g' st st' rule: list_all2_induct)
  case Nil
  then show ?case by (simp add: sameOutcome_def)
next
  case (Cons fi fis fi' fis')
  have step: "sameOutcome (claimantStep L c ofd osd si k key fi (g, st))
                (claimantStep L c ofd' osd si k key fi' (g', st'))"
    by (rule claimantStep_rel [OF Cons.hyps(1) assms(2) Cons.prems])
  show ?case
  proof (cases rule: sameOutcome_cases [OF step])
    case (1 e g1 st1 g1' st1')
    with step show ?thesis by simp
  next
    case (2 g1 st1 g1' st1')
    from Cons.IH [OF 2(3) 2(4)] show ?thesis by (simp add: 2(1) 2(2))
  qed
qed

lemma findSislameKey_rel:
  assumes "list_all2 sameButBirthday xs xs'"
  shows "findSislameKey L sd xs keys = findSislameKey L sd xs' keys"
proof -
  have h: "sameName L (hd xs) = sameName L (hd xs')"
  proof (cases xs)
    case Nil
    with assms show ?thesis by simp
  next
    case (Cons a as)
    with assms obtain b bs where "xs' = b # bs" and "sameButBirthday a b"
      by (cases xs') auto
    with Cons show ?thesis
      by (simp add: sameName_def fun_eq_iff sameButBirthday_field [of a b])
  qed
  have e: "list_ex (\<lambda>familyItem. compareNames L v (field familyItem ''TITULAR'')) xs
         = list_ex (\<lambda>familyItem. compareNames L v (field familyItem ''TITULAR'')) xs'" for v
    by (rule list_ex_rel [OF assms]) (simp add: sameButBirthday_field)
  show ?thesis
    by (induction keys) (simp_all add: h e split: option.split)
qed

lemma resolveGroup_rel:
  assumes xs: "list_all2 sameButBirthday xs xs'"
    and ofd: "list_all2 sameButBirthday ofd ofd'"
    and g: "list_all2 sameFamilyButBirthday g g'"
    and s: "list_all2 sameButBirthday (csvRecords st) (csvRecords st')"
  shows "sameOutcome (resolveGroup L c ofd osd sd xs (g, st))
           (resolveGroup L c ofd' osd sd xs' (g', st'))"
proof (cases "findSislameKey L sd xs' sislamePossibleKeys")
  case None
  have "list_all2 sameButBirthday (map (\<lambda>familyItem. withReason familyItem notInSislameReason) xs)
          (map (\<lambda>familyItem. withReason familyItem notInSislameReason) xs')"
    using xs by (simp add: list_all2_map1 list_all2_map2 sameButBirthday_withReason list_all2_mono)
  from sameOutcome_write [OF g s this] show ?thesis
    by (simp add: resolveGroup_def findSislameKey_rel [OF xs] None)
next
  case (Some a)
  obtain key k where a: "a = (key, k)" by (cases a)
  from claimantsLoop_rel [OF xs ofd g s] show ?thesis
    by (simp add: resolveGroup_def findSislameKey_rel [OF xs] Some a)
qed

lemma duplicatedLoop_rel:
  assumes ofd: "list_all2 sameButBirthday ofd ofd'"
  shows "list_all2 sameButBirthday dd dd' \<Longrightarrow>
         list_all2 sameFamilyButBirthday g g' \<Longrightarrow>
         list_all2 sameButBirthday (csvRecords st) (csvRecords st') \<Longrightarrow>
         sameOutcome (duplicatedLoop L c ofd osd sd dd (g, st))
           (duplicatedLoop L c ofd' osd sd dd' (g', st'))"
proof (induction "length dd" arbitrary: dd dd' g g' st st' rule: less_induct)
  case less
  show ?case
  proof (cases dd)
    case Nil
    with less.prems show ?thesis by (simp add: sameOutcome_def)
  next
    case (Cons first others)
    with less.prems(1) obtain first' others' where dd': "dd' = first' # others'"
      and f: "sameButBirthday first first'" and os: "list_all2 sameButBirthday others others'"
      by (cases dd') auto
    have nis: "field first ''NISDEPENDEN'' = field first' ''NISDEPENDEN''"
      by (rule sameButBirthday_field [OF f]) simp
    have all: "list_all2 sameButBirthday (first # others) (first' # others')"
      using f os by simp
    have grp: "list_all2 sameButBirthday
                 (filter (\<lambda>item. field item ''NISDEPENDEN'' = field first ''NISDEPENDEN'') (first # others))
                 (filter (\<lambda>item. field item ''NISDEPENDEN'' = field first' ''NISDEPENDEN'') (first' # others'))"
      by (rule filter_rel [OF all]) (simp add: nis sameButBirthday_field)
    have rest: "list_all2 sameButBirthday
                 (filter (\<lambda>item. field item ''NISDEPENDEN'' \<noteq> field first ''NISDEPENDEN'') (first # others))
                 (filter (\<lambda>item. field item ''NISDEPENDEN'' \<noteq> field first' ''NISDEPENDEN'') (first' # others'))"
      by (rule filter_rel [OF all]) (simp add: nis sameButBirthday_field)
    have len: "length (filter (\<lambda>item. field item ''NISDEPENDEN'' \<noteq> field first ''NISDEPENDEN'')
                 (first # others)) < length dd"
      by (simp add: Cons less_Suc_eq_le)
    have step: "sameOutcome
        (resolveGroup L c ofd osd sd
           (filter (\<lambda>item. field item ''NISDEPENDEN'' = field first ''NISDEPENDEN'') (first # others))
           (g, st))
        (resolveGroup L c ofd' osd sd
           (filter (\<lambda>item. field item ''NISDEPENDEN'' = field first' ''NISDEPENDEN'') (first' # others'))
           (g', st'))"
      by (rule resolveGroup_rel [OF grp ofd less.prems(2) less.prems(3)])
    show ?thesis
    proof (cases rule: sameOutcome_cases [OF step])
      case (1 e g1 st1 g1' st1')
      with step show ?thesis
        unfolding Cons dd' duplicatedLoop.simps by (simp del: filter.simps)
    next
      case (2 g1 st1 g1' st1')
      from less.hyps [OF len rest 2(3) 2(4)] show ?thesis
        unfolding Cons dd' duplicatedLoop.simps by (simp add: 2(1) 2(2) del: filter.simps)
    qed
  qed
qed

subsection \<open>The whole import on rows that differ in the birthday only\<close>

lemma map_snd_rel:
  "list_all2 (\<lambda>p q. fst p = fst q \<and> R (snd p) (snd q)) xs ys \<Longrightarrow>
   list_all2 R (map snd xs) (map snd ys)"
  by (induction rule: list_all2_induct) simp_all

lemma duplicatedDependent_rel:
  assumes "list_all2 sameButBirthday xs xs'"
  shows "list_all2 sameButBirthday (duplicatedDependent xs) (duplicatedDependent xs')"
proof -
  let ?R = "\<lambda>p q. fst p = fst q \<and> sameButBirthday (snd p) (snd q)"
  have E: "list_all2 ?R (enumerate 0 xs) (enumerate 0 xs')"
    by (rule enumerate_rel [OF assms])
  have F: "list_all2 ?R
             (filter (\<lambda>(index, item).
                  find (\<lambda>(findIndex, duplicated).
                          if index = findIndex then False
                          else field item ''NISDEPENDEN'' = field duplicated ''NISDEPENDEN'')
                       (enumerate 0 xs) \<noteq> None)
               (enumerate 0 xs))
             (filter (\<lambda>(index, item).
                  find (\<lambda>(findIndex, duplicated).
                          if index = findIndex then False
                          else field item ''NISDEPENDEN'' = field duplicated ''NISDEPENDEN'')
                       (enumerate 0 xs') \<noteq> None)
               (enumerate 0 xs'))"
  proof (rule filter_rel [OF E])
    fix p q :: "nat \<times> row"
    assume pq: "fst p = fst q \<and> sameButBirthday (snd p) (snd q)"
    obtain i a where p: "p = (i, a)" by (cases p)
    obtain i' a' where q: "q = (i', a')" by (cases q)
    from pq p q have ii: "i' = i" and aa: "sameButBirthday a a'" by simp_all
    have nis: "field a ''NISDEPENDEN'' = field a' ''NISDEPENDEN''"
      by (rule sameButBirthday_field [OF aa]) simp
    have "rel_option ?R
            (find (\<lambda>(findIndex, duplicated).
                     if i = findIndex then False
                     else field a ''NISDEPENDEN'' = field duplicated ''NISDEPENDEN'')
               (enumerate 0 xs))
            (find (\<lambda>(findIndex, duplicated).
                     if i = findIndex then False
                     else field a' ''NISDEPENDEN'' = field duplicated ''NISDEPENDEN'')
               (enumerate 0 xs'))"
    proof (rule find_rel [OF E])
      fix x y :: "nat \<times> row"
      assume xy: "fst x = fst y \<and> sameButBirthday (snd x) (snd y)"
      obtain j b where x: "x = (j, b)" by (cases x)
      obtain j' b' where y: "y = (j', b')" by (cases y)
      from xy x y have jj: "j' = j" and bb: "sameButBirthday b b'" by simp_all
      have "field b ''NISDEPENDEN'' = field b' ''NISDEPENDEN''"
        by (rule sameButBirthday_field [OF bb]) simp
      then show "(case x of (m, duplicated) \<Rightarrow>
                    if i = m then False
                    else field a ''NISDEPENDEN'' = field duplicated ''NISDEPENDEN'')
               = (case y of (m, duplicated) \<Rightarrow>
                    if i = m then False
                    else field a' ''NISDEPENDEN'' = field duplicated ''NISDEPENDEN'')"
        by (simp add: x y jj nis)
    qed
    then have "(find (\<lambda>(findIndex, duplicated).
                     if i = findIndex then False
                     else field a ''NISDEPENDEN'' = field duplicated ''NISDEPENDEN'')
               (enumerate 0 xs) \<noteq> None)
             = (find (\<lambda>(findIndex, duplicated).
                     if i = findIndex then False
                     else field a' ''NISDEPENDEN'' = field duplicated ''NISDEPENDEN'')
               (enumerate 0 xs') \<noteq> None)"
      by (cases rule: option.rel_cases) simp_all
    then show "(case p of (index, item) \<Rightarrow>
                  find (\<lambda>(findIndex, duplicated).
                          if index = findIndex then False
                          else field item ''NISDEPENDEN'' = field duplicated ''NISDEPENDEN'')
                       (enumerate 0 xs) \<noteq> None)
             = (case q of (index, item) \<Rightarrow>
                  find (\<lambda>(findIndex, duplicated).
                          if index = findIndex then False
                          else field item ''NISDEPENDEN'' = field duplicated ''NISDEPENDEN'')
                       (enumerate 0 xs') \<noteq> None)"
      by (simp add: p q ii)
  qed
  show ?thesis
    unfolding duplicatedDependent_def by (rule map_snd_rel [OF F])
qed

lemma uniqueDependent_rel:
  assumes "list_all2 sameButBirthday xs xs'"
  shows "list_all2 sameButBirthday (uniqueDependent xs) (uniqueDependent xs')"
  unfolding uniqueDependent_def uniqBy_def
  by (rule uniqByFrom_rel [OF assms]) (simp add: sameButBirthday_field)

lemma uniqBy_familyKey_rel:
  assumes "list_all2 sameButBirthday xs xs'"
  shows "list_all2 sameButBirthday (uniqBy xs familyKey) (uniqBy xs' familyKey)"
  unfolding uniqBy_def
  by (rule uniqByFrom_rel [OF assms]) (simp add: familyKey_def sameButBirthday_field)

lemma splitByAge_rel:
  assumes "list_all2 sameButBirthday xs xs'"
  shows "list_all2 sameButBirthday (fst (splitByAge L xs)) (fst (splitByAge L xs'))
         \<and> list_all2 sameButBirthday (snd (splitByAge L xs)) (snd (splitByAge L xs'))"
proof -
  have a: "list_all2 sameButBirthday
             (filter (\<lambda>item. validAge L (field item ''DTNASCDEP'')) xs)
             (filter (\<lambda>item. validAge L (field item ''DTNASCDEP'')) xs')"
    by (rule filter_rel [OF assms]) (simp add: sameButBirthday_field)
  have b: "list_all2 sameButBirthday
             (filter (\<lambda>item. \<not> validAge L (field item ''DTNASCDEP'')) xs)
             (filter (\<lambda>item. \<not> validAge L (field item ''DTNASCDEP'')) xs')"
    by (rule filter_rel [OF assms]) (simp add: sameButBirthday_field)
  from b have "list_all2 sameButBirthday
             (map (\<lambda>item. withReason item ofAgeReason)
                (filter (\<lambda>item. \<not> validAge L (field item ''DTNASCDEP'')) xs))
             (map (\<lambda>item. withReason item ofAgeReason)
                (filter (\<lambda>item. \<not> validAge L (field item ''DTNASCDEP'')) xs'))"
    by (simp add: list_all2_map1 list_all2_map2 sameButBirthday_withReason list_all2_mono)
  with a show ?thesis by (simp add: splitByAge_eq)
qed

lemma saveFamilies_not_thrown: "notThrownBySaving (fst (saveFamilies L c g st)) = None"
  by (simp add: saveFamilies_def notThrownBySaving_def split: prod.split option.split)

lemma sameOutcome_ButSaving: "sameOutcome x y \<Longrightarrow> sameOutcomeButSaving x y"
  by (simp add: sameOutcome_def sameOutcomeButSaving_def)

lemma crossReference_rel:
  assumes d: "deburr L ''DTNASCTIT'' = ''DTNASCTIT''"
    and ofd: "list_all2 sameButBirthday ofd ofd'"
    and s: "list_all2 sameButBirthday (csvRecords st) (csvRecords st')"
  shows "sameOutcomeButSaving (crossReference L c ofd osd st) (crossReference L c ofd' osd st')"
proof -
  have db: "list_all2 sameButBirthday (deburrData L ofd) (deburrData L ofd')"
    by (rule sameButBirthday_deburrData [OF d ofd])
  have u: "list_all2 sameButBirthday (uniqueDependent (deburrData L ofd))
             (uniqueDependent (deburrData L ofd'))"
    by (rule uniqueDependent_rel [OF db])
  have n: "length (uniqueDependent (deburrData L ofd')) = length (uniqueDependent (deburrData L ofd))"
    using u by (simp add: list_all2_lengthD)
  have dd: "list_all2 sameButBirthday (duplicatedDependent (deburrData L ofd))
             (duplicatedDependent (deburrData L ofd'))"
    by (rule duplicatedDependent_rel [OF db])
  have nil: "list_all2 sameFamilyButBirthday [] []" by simp
  have one: "sameOutcome
      (compareLoop L c ofd osd (deburrData L osd) (length (uniqueDependent (deburrData L ofd)))
         (enumerate 0 (uniqueDependent (deburrData L ofd))) ([], st))
      (compareLoop L c ofd' osd (deburrData L osd) (length (uniqueDependent (deburrData L ofd)))
         (enumerate 0 (uniqueDependent (deburrData L ofd'))) ([], st'))"
    by (rule compareLoop_rel [OF enumerate_rel [OF u] ofd nil s])
  show ?thesis
  proof (cases rule: sameOutcome_cases [OF one])
    case (1 e g1 st1 g1' st1')
    with one have "sameOutcome (crossReference L c ofd osd st) (crossReference L c ofd' osd st')"
      by (simp add: crossReference_def n)
    then show ?thesis by (rule sameOutcome_ButSaving)
  next
    case (2 g1 st1 g1' st1')
    have two: "sameOutcome
        (duplicatedLoop L c ofd osd (deburrData L osd) (duplicatedDependent (deburrData L ofd)) (g1, st1))
        (duplicatedLoop L c ofd' osd (deburrData L osd) (duplicatedDependent (deburrData L ofd')) (g1', st1'))"
      by (rule duplicatedLoop_rel [OF ofd dd 2(3) 2(4)])
    show ?thesis
    proof (cases rule: sameOutcome_cases [OF two])
      case (1 e g2 st2 g2' st2')
      with two have "sameOutcome (crossReference L c ofd osd st) (crossReference L c ofd' osd st')"
        by (simp add: crossReference_def n 2(1) 2(2))
      then show ?thesis by (rule sameOutcome_ButSaving)
    next
      case g2: (2 g2 st2 g2' st2')
      obtain err st3 where sv: "saveFamilies L c g2 st2 = (err, st3)"
        by (cases "saveFamilies L c g2 st2")
      obtain err' st3' where sv': "saveFamilies L c g2' st2' = (err', st3')"
        by (cases "saveFamilies L c g2' st2'")
      from saveFamilies_not_thrown [of L c g2 st2] sv
      have e: "notThrownBySaving err = None" by simp
      from saveFamilies_not_thrown [of L c g2' st2'] sv'
      have e': "notThrownBySaving err' = None" by simp
      have l: "crossReference L c ofd osd st = (err, g2, st3)"
        by (simp add: crossReference_def 2(1) g2(1) sv)
      have r: "crossReference L c ofd' osd st' = (err', g2', st3')"
        by (simp add: crossReference_def n 2(2) g2(2) sv')
      show ?thesis
        unfolding l r
        using e e' g2(3) g2(4) saveFamilies_csv [OF sv] saveFamilies_csv [OF sv']
        by (simp add: sameOutcomeButSaving_def)
    qed
  qed
qed

lemma reconcile_rel:
  assumes d: "deburr L ''DTNASCTIT'' = ''DTNASCTIT''"
    and rows: "list_all2 sameButBirthday rows rows'"
  shows "sameOutcomeButSaving (reconcile L c rows osd st) (reconcile L c rows' osd st)"
proof -
  from splitByAge_rel [OF rows, of L]
  have a: "list_all2 sameButBirthday (fst (splitByAge L rows)) (fst (splitByAge L rows'))"
    and b: "list_all2 sameButBirthday (snd (splitByAge L rows)) (snd (splitByAge L rows'))"
    by simp_all
  have s: "list_all2 sameButBirthday
             (csvRecords (writeRecords (snd (splitByAge L rows)) st))
             (csvRecords (writeRecords (snd (splitByAge L rows')) st))"
    using b by (simp add: list_all2_appendI list_all2_same)
  show ?thesis
    unfolding reconcile_def Let_def
    by (rule crossReference_rel [OF d a s])
qed

lemma checkRequiredFamilyData_rel:
  assumes "rel_option sameButBirthday item item'"
  shows "checkRequiredFamilyData item c st = checkRequiredFamilyData item' c st"
  using assms
  by (cases rule: option.rel_cases) (simp_all add: checkRequiredFamilyData_def sameButBirthday_keys)

lemma import_rel:
  assumes d: "deburr L ''DTNASCTIT'' = ''DTNASCTIT''"
    and rows: "list_all2 sameButBirthday familyRows familyRows'"
  shows "sameOutcomeButSaving (importFamilyFromCadAndSislameCSV L familyRows sislameRows c st)
           (importFamilyFromCadAndSislameCSV L familyRows' sislameRows c st)"
proof -
  define st2 where "st2 = report_update (report filtering_data) c (report_update (report reading_files) c st)"
  obtain e3 st3 where c3: "checkRequiredSislameData (elemAt sislameRows 0) c st2 = (e3, st3)"
    by (cases "checkRequiredSislameData (elemAt sislameRows 0) c st2")
  obtain e4 st4 where c4: "checkRequiredFamilyData (elemAt familyRows 0) c st3 = (e4, st4)"
    by (cases "checkRequiredFamilyData (elemAt familyRows 0) c st3")
  have c4': "checkRequiredFamilyData (elemAt familyRows' 0) c st3 = (e4, st4)"
    using checkRequiredFamilyData_rel [OF elemAt_rel [OF rows], of 0 c st3] c4 by simp
  have refl: "sameOutcomeButSaving x x" for x
    by (simp add: sameOutcomeButSaving_def list_all2_same sameFamilyButBirthday_def)
  show ?thesis
  proof (cases e3)
    case (Some e)
    show ?thesis
      unfolding importFamilyFromCadAndSislameCSV_def Let_def st2_def [symmetric] c3
      by (simp add: Some refl)
  next
    case None
    show ?thesis
    proof (cases e4)
      case (Some e)
      show ?thesis
        unfolding importFamilyFromCadAndSislameCSV_def Let_def st2_def [symmetric] c3
        by (simp add: None c4 c4' Some refl)
    next
      case n: None
      show ?thesis
        unfolding importFamilyFromCadAndSislameCSV_def Let_def st2_def [symmetric] c3
        using reconcile_rel [OF d uniqBy_familyKey_rel [OF rows], of c "uniqBy sislameRows sislameKey" st4]
        by (simp add: None c4 c4' n)
    qed
  qed
qed

section \<open>Unparseable dates\<close>

text \<open>
  C9, as amended. A benefit row whose birthday of the responsible (\<open>DTNASCTIT\<close>) does not
  parse as day/month/year is still converted by \<open>parseFamilyItem\<close>: the conversion never
  fails because of the date (it fails only when the family group is missing), and the
  birthday of the family is the invalid date. The row is not rejected because of it: the
  import reads that birthday nowhere else, so two runs on benefit tables that differ in
  the values of \<open>DTNASCTIT\<close> only reject the same rows with the same reasons and grant the
  same dependents to the same families, whatever the birthdays are (\<open>deburr\<close> leaving the
  plain name \<open>DTNASCTIT\<close> as it is, and an error of the persistence call, which receives
  the birthdays, apart). A row whose birthday of the dependent (\<open>DTNASCDEP\<close>) does not
  parse is removed by the age filter and written with the reason that the dependent is of
  age.
\<close>

theorem unparseable_birthday_kept_as_invalid_date:
  "(moment L (map_of family ''DTNASCTIT'') = None \<longrightarrow>
      parseFamilyItem L family c
      = (case getFamilyGroupByCode L 0 of
           None \<Rightarrow> Inl TypeError
         | Some key \<Rightarrow>
             Inr \<lparr>responsibleNis = map_of family ''NISTITULAR'',
                  responsibleName = map_of family ''TITULAR'',
                  responsibleBirthday = InvalidDate,
                  responsibleMotherName = [],
                  code = [],
                  groupName = key,
                  familyCityId = c,
                  dependents = []\<rparr>))
   \<and> (deburr L ''DTNASCTIT'' = ''DTNASCTIT'' \<and> list_all2 sameButBirthday familyRows familyRows' \<longrightarrow>
        notThrownBySaving (fst (importFamilyFromCadAndSislameCSV L familyRows sislameRows c st))
        = notThrownBySaving (fst (importFamilyFromCadAndSislameCSV L familyRows' sislameRows c st))
        \<and> list_all2 sameFamilyButBirthday
            (fst (snd (importFamilyFromCadAndSislameCSV L familyRows sislameRows c st)))
            (fst (snd (importFamilyFromCadAndSislameCSV L familyRows' sislameRows c st)))
        \<and> list_all2 sameButBirthday
            (csvRecords (snd (snd (importFamilyFromCadAndSislameCSV L familyRows sislameRows c st))))
            (csvRecords (snd (snd (importFamilyFromCadAndSislameCSV L familyRows' sislameRows c st)))))
   \<and> (moment L (map_of item ''DTNASCDEP'') = None \<and> item \<in> set rows \<longrightarrow>
        item \<notin> set (fst (splitByAge L rows))
        \<and> AList.update ''reason'' ''Depedente maior de idade'' item \<in> set (snd (splitByAge L rows)))"
proof -
  have a: "moment L (map_of family ''DTNASCTIT'') = None \<longrightarrow>
      parseFamilyItem L family c
      = (case getFamilyGroupByCode L 0 of
           None \<Rightarrow> Inl TypeError
         | Some key \<Rightarrow>
             Inr \<lparr>responsibleNis = map_of family ''NISTITULAR'',
                  responsibleName = map_of family ''TITULAR'',
                  responsibleBirthday = InvalidDate,
                  responsibleMotherName = [],
                  code = [],
                  groupName = key,
                  familyCityId = c,
                  dependents = []\<rparr>)"
    by (simp add: parseFamilyItem_def toDate_def field_def split: option.split)
  have b: "deburr L ''DTNASCTIT'' = ''DTNASCTIT'' \<and> list_all2 sameButBirthday familyRows familyRows' \<longrightarrow>
        notThrownBySaving (fst (importFamilyFromCadAndSislameCSV L familyRows sislameRows c st))
        = notThrownBySaving (fst (importFamilyFromCadAndSislameCSV L familyRows' sislameRows c st))
        \<and> list_all2 sameFamilyButBirthday
            (fst (snd (importFamilyFromCadAndSislameCSV L familyRows sislameRows c st)))
            (fst (snd (importFamilyFromCadAndSislameCSV L familyRows' sislameRows c st)))
        \<and> list_all2 sameButBirthday
            (csvRecords (snd (snd (importFamilyFromCadAndSislameCSV L familyRows sislameRows c st))))
            (csvRecords (snd (snd (importFamilyFromCadAndSislameCSV L familyRows' sislameRows c st))))"
    using import_rel [of L familyRows familyRows' sislameRows c st]
    by (simp add: sameOutcomeButSaving_def)
  have c: "moment L (map_of item ''DTNASCDEP'') = None \<and> item \<in> set rows \<longrightarrow>
        item \<notin> set (fst (splitByAge L rows))
        \<and> AList.update ''reason'' ''Depedente maior de idade'' item \<in> set (snd (splitByAge L rows))"
    by (simp add: splitByAge_eq validAge_def field_def withReason_def ofAgeReason_def)
  show ?thesis by (rule conjI [OF a conjI [OF b c]])
qed

lemma import_maria_undated:
  "importFamilyFromCadAndSislameCSV lib0 [mariaUndated] [joaoEnrolled] 7 state0
       = (None,
          [\<lparr>responsibleNis = Some ''200'', responsibleName = Some ''MARIA SILVA'',
            responsibleBirthday = InvalidDate, responsibleMotherName = [], code = [],
            groupName = ''group-0'', familyCityId = 7,
            dependents = [(mariaUndated, joaoEnrolled)]\<rparr>],
          \<lparr>importReportList =
             [\<lparr>status = completed, message = None, percentage = None,
               cityId = Some 7, inProgress = Some False\<rparr>],
           csvRecords = [],
           certified =
             [\<lparr>responsibleNis = Some ''200'', responsibleName = Some ''MARIA SILVA'',
               responsibleBirthday = InvalidDate, responsibleMotherName = [], code = [],
               groupName = ''group-0'', familyCityId = 7,
               dependents = [(mariaUndated, joaoEnrolled)]\<rparr>]\<rparr>)"
  by (simp add: model_defs lib_defs row_defs mariaUndated_def)

theorem unparseable_birthday_kept_as_invalid_date_witness:
  "moment lib0 (map_of mariaUndated ''DTNASCTIT'') = None
   \<and> parseFamilyItem lib0 mariaUndated 7
       = Inr \<lparr>responsibleNis = Some ''200'', responsibleName = Some ''MARIA SILVA'',
              responsibleBirthday = InvalidDate, responsibleMotherName = [], code = [],
              groupName = ''group-0'', familyCityId = 7, dependents = []\<rparr>
   \<and> deburr lib0 ''DTNASCTIT'' = ''DTNASCTIT''
   \<and> list_all2 sameButBirthday [mariaUndated] [mariaJoao]
   \<and> notThrownBySaving (fst (importFamilyFromCadAndSislameCSV lib0 [mariaUndated] [joaoEnrolled] 7 state0))
       = notThrownBySaving (fst (importFamilyFromCadAndSislameCSV lib0 [mariaJoao] [joaoEnrolled] 7 state0))
   \<and> list_all2 sameFamilyButBirthday
        (fst (snd (importFamilyFromCadAndSislameCSV lib0 [mariaUndated] [joaoEnrolled] 7 state0)))
        (fst (snd (importFamilyFromCadAndSislameCSV lib0 [mariaJoao] [joaoEnrolled] 7 state0)))
   \<and> list_all2 sameButBirthday
        (csvRecords (snd (snd (importFamilyFromCadAndSislameCSV lib0 [mariaUndated] [joaoEnrolled] 7 state0))))
        (csvRecords (snd (snd (importFamilyFromCadAndSislameCSV lib0 [mariaJoao] [joaoEnrolled] 7 state0))))
   \<and> csvRecords (snd (snd (importFamilyFromCadAndSislameCSV lib0 [mariaUndated] [joaoEnrolled] 7 state0))) = []
   \<and> map responsibleBirthday (fst (snd (importFamilyFromCadAndSislameCSV lib0 [mariaUndated] [joaoEnrolled] 7 state0))) = [InvalidDate]
   \<and> map dependents (fst (snd (importFamilyFromCadAndSislameCSV lib0 [mariaUndated] [joaoEnrolled] 7 state0))) = [ [(mariaUndated, joaoEnrolled)] ]
   \<and> moment lib0 (map_of mariaJoaoUndated ''DTNASCDEP'') = None
   \<and> mariaJoaoUndated \<in> set [mariaJoaoUndated]
   \<and> mariaJoaoUndated \<notin> set (fst (splitByAge lib0 [mariaJoaoUndated]))
   \<and> AList.update ''reason'' ''Depedente maior de idade'' mariaJoaoUndated
       \<in> set (snd (splitByAge lib0 [mariaJoaoUndated]))"
proof -
  have h: "moment lib0 (map_of mariaUndated ''DTNASCTIT'') = None"
    by (simp add: lib_defs mariaUndated_def familyRow_def)
  have d: "deburr lib0 ''DTNASCTIT'' = ''DTNASCTIT''"
    by (simp add: lib_defs)
  have r: "list_all2 sameButBirthday [mariaUndated] [mariaJoao]"
    by (simp add: sameButBirthday_def mariaUndated_def mariaJoao_def familyRow_def)
  have h': "moment lib0 (map_of mariaJoaoUndated ''DTNASCDEP'') = None"
    by (simp add: lib_defs mariaJoaoUndated_def familyRow_def)
  have m: "mariaJoaoUndated \<in> set [mariaJoaoUndated]" by simp
  note t = unparseable_birthday_kept_as_invalid_date
             [of lib0 mariaUndated 7 "[mariaUndated]" "[mariaJoao]" "[joaoEnrolled]" state0
                 mariaJoaoUndated "[mariaJoaoUndated]"]
  have p: "parseFamilyItem lib0 mariaUndated 7
       = Inr \<lparr>responsibleNis = Some ''200'', responsibleName = Some ''MARIA SILVA'',
              responsibleBirthday = InvalidDate, responsibleMotherName = [], code = [],
              groupName = ''group-0'', familyCityId = 7, dependents = []\<rparr>"
    using t h by (simp add: lib0_def mariaUndated_def familyRow_def)
  have s: "notThrownBySaving (fst (importFamilyFromCadAndSislameCSV lib0 [mariaUndated] [joaoEnrolled] 7 state0))
       = notThrownBySaving (fst (importFamilyFromCadAndSislameCSV lib0 [mariaJoao] [joaoEnrolled] 7 state0))
   \<and> list_all2 sameFamilyButBirthday
        (fst (snd (importFamilyFromCadAndSislameCSV lib0 [mariaUndated] [joaoEnrolled] 7 state0)))
        (fst (snd (importFamilyFromCadAndSislameCSV lib0 [mariaJoao] [joaoEnrolled] 7 state0)))
   \<and> list_all2 sameButBirthday
        (csvRecords (snd (snd (importFamilyFromCadAndSislameCSV lib0 [mariaUndated] [joaoEnrolled] 7 state0))))
        (csvRecords (snd (snd (importFamilyFromCadAndSislameCSV lib0 [mariaJoao] [joaoEnrolled] 7 state0))))"
    using t d r by blast
  have q: "mariaJoaoUndated \<notin> set (fst (splitByAge lib0 [mariaJoaoUndated]))
         \<and> AList.update ''reason'' ''Depedente maior de idade'' mariaJoaoUndated
             \<in> set (snd (splitByAge lib0 [mariaJoaoUndated]))"
    using t h' m by blast
  have u: "csvRecords (snd (snd (importFamilyFromCadAndSislameCSV lib0 [mariaUndated] [joaoEnrolled] 7 state0))) = []
   \<and> map responsibleBirthday (fst (snd (importFamilyFromCadAndSislameCSV lib0 [mariaUndated] [joaoEnrolled] 7 state0))) = [InvalidDate]
   \<and> map dependents (fst (snd (importFamilyFromCadAndSislameCSV lib0 [mariaUndated] [joaoEnrolled] 7 state0))) = [ [(mariaUndated, joaoEnrolled)] ]"
    by (simp add: import_maria_undated)
  from h p d r s u h' m q show ?thesis by blast
qed

text \<open>
  A row with an empty \<open>DTNASCDEP\<close> is rejected because of that date: the import grants
  nothing and writes the row with the of-age reason.
\<close>

theorem unparseable_dependent_birthday_rejects_row:
  "moment lib0 (field mariaJoaoUndated ''DTNASCDEP'') = None
   \<and> importFamilyFromCadAndSislameCSV lib0 [mariaJoaoUndated] [joaoEnrolled] 7 state0
     = (None, [],
        \<lparr>importReportList =
           [\<lparr>status = completed, message = None, percentage = None,
             cityId = Some 7, inProgress = Some False\<rparr>],
         csvRecords = [mariaJoaoUndated @ [(''reason'', ofAgeReason)]],
         certified = []\<rparr>)"
  by (simp add: model_defs lib_defs row_defs mariaJoaoUndated_def)

section \<open>The record granted to the winner of a duplicated dependent\<close>

lemmas row_defs2 = mariaCarlaOfAge_def mariaCarla_def joaoOfMaria_def





section \<open>Resolving a group of duplicated dependents\<close>

lemma group_of_first:
  "filter (\<lambda>item. field item ''NISDEPENDEN'' = field first ''NISDEPENDEN'') (first # others) \<noteq> []
   \<and> hd (filter (\<lambda>item. field item ''NISDEPENDEN'' = field first ''NISDEPENDEN'') (first # others))
       = first"
  by simp






lemma grantedCount_append [simp]:
  "grantedCount (g @ [family]) = grantedCount g + length (dependents family)"
  by (simp add: grantedCount_def)

lemma grantedCount_update:
  assumes "j < length g"
  shows "grantedCount (g[j := (g ! j)\<lparr>dependents := dependents (g ! j) @ [d]\<rparr>]) = grantedCount g + 1"
proof -
  let ?f = "\<lambda>family. length (dependents family)"
  have "map ?f (g[j := (g ! j)\<lparr>dependents := dependents (g ! j) @ [d]\<rparr>])
        = (map ?f g)[j := ?f (g ! j) + 1]"
    by (simp add: map_update)
  moreover have "sum_list ((map ?f g)[j := ?f (g ! j) + 1])
                 = sum_list (map ?f g) + (?f (g ! j) + 1) - (map ?f g) ! j"
    using assms by (simp add: sum_list_update)
  ultimately show ?thesis
    using assms by (simp add: grantedCount_def)
qed

lemma grantDependent_count:
  assumes "grantDependent L c granted familyItem orig sis = Inr granted'"
  shows "grantedCount granted' = grantedCount granted + 1"
  using assms
  by (auto simp: grantDependent_def Let_def grantedCount_update
           split: sum.splits option.splits dest: findIndex_Some_less)

lemma validAge_enrolledMinor:
  "validAge L (map_of sislameItem ''Data Nascimento'') = enrolledMinor L sislameItem"
  by (simp add: validAge_def enrolledMinor_def)

lemma claimantStep_outcome:
  assumes "claimantStep L c ofd osd sislameItem i key familyItem (granted, st) = (None, granted', st')"
  shows "st' = st\<lparr>csvRecords := csvRecords st @ groupRejections L sislameItem key [familyItem]\<rparr>
       \<and> grantedCount granted' = grantedCount granted + length (winners L sislameItem key [familyItem])"
  using assms
  by (auto simp: claimantStep_def Let_def groupRejections_def winners_def validAge_enrolledMinor
                 field_def withReason_def writeRecords_def template_def
                 sislameOfAgeReason_def linkedToOtherReason_def
           split: if_splits sum.splits option.splits dest: grantDependent_count)

lemma groupRejections_Cons:
  "groupRejections L s key (f # fs) = groupRejections L s key [f] @ groupRejections L s key fs"
  by (simp add: groupRejections_def)

lemma winners_Cons:
  "winners L s key (f # fs) = winners L s key [f] @ winners L s key fs"
  by (simp add: winners_def)

lemma claimantsLoop_outcome:
  "claimantsLoop L c ofd osd sislameItem i key items (granted, st) = (None, granted', st') \<Longrightarrow>
   st' = st\<lparr>csvRecords := csvRecords st @ groupRejections L sislameItem key items\<rparr>
   \<and> grantedCount granted' = grantedCount granted + length (winners L sislameItem key items)"
proof (induction items arbitrary: granted st)
  case Nil
  then show ?case by (simp add: groupRejections_def winners_def)
next
  case (Cons f fs)
  obtain e g s where step: "claimantStep L c ofd osd sislameItem i key f (granted, st) = (e, g, s)"
    by (metis prod_cases3)
  with Cons.prems have e: "e = None"
    by (cases e) simp_all
  with Cons.prems step
  have rest: "claimantsLoop L c ofd osd sislameItem i key fs (g, s) = (None, granted', st')"
    by simp
  from claimantStep_outcome [OF step [unfolded e]] Cons.IH [OF rest]
  show ?case
    by (simp add: groupRejections_Cons [of L sislameItem key f fs] winners_Cons [of L sislameItem key f fs])
qed

subsection \<open>Who the dependents are granted to\<close>

















section \<open>Counting the outcomes of a run\<close>

text \<open>
  Every turn of the loop over the benefit rows, and every row of a group of duplicated
  dependents, ends in one granted dependent or in one written record. A run that does not
  throw therefore has as many outcomes as rows removed by the age filter, rows in the list
  the main loop goes through and rows in the list of duplicated dependents together; this
  is the number of rows after the removal of repeated lines when no dependent is
  duplicated.
\<close>

lemma compareStep_count:
  assumes "compareStep L c ofd osd sd n i familyItem acc = (None, granted', st')"
  shows "grantedCount granted' + length (csvRecords st')
         = grantedCount (fst acc) + length (csvRecords (snd acc)) + 1"
  using assms
  by (auto simp: compareStep_def Let_def split: option.splits if_splits sum.splits
           dest: grantDependent_count)

lemma compareLoop_count:
  "compareLoop L c ofd osd sd n items acc = (None, granted', st') \<Longrightarrow>
   grantedCount granted' + length (csvRecords st')
   = grantedCount (fst acc) + length (csvRecords (snd acc)) + length items"
proof (induction items arbitrary: acc)
  case Nil
  then show ?case by auto
next
  case (Cons p items)
  obtain i familyItem where p: "p = (i, familyItem)" by (cases p)
  obtain e g s where step: "compareStep L c ofd osd sd n i familyItem acc = (e, g, s)"
    by (metis prod_cases3)
  with Cons.prems p have e: "e = None"
    by (cases e) simp_all
  with Cons.prems p step have rest: "compareLoop L c ofd osd sd n items (g, s) = (None, granted', st')"
    by simp
  from compareStep_count [OF step [unfolded e]] Cons.IH [OF rest]
  show ?case by simp
qed

lemma rejections_winners_length:
  "length (groupRejections L s key items) + length (winners L s key items) = length items"
  by (induction items) (auto simp: groupRejections_def winners_def)

lemma resolveGroup_count:
  assumes "resolveGroup L c ofd osd sd items (granted, st) = (None, granted', st')"
  shows "grantedCount granted' + length (csvRecords st')
         = grantedCount granted + length (csvRecords st) + length items"
proof (cases "findSislameKey L sd items sislamePossibleKeys")
  case None
  with assms show ?thesis by (auto simp: resolveGroup_def)
next
  case (Some p)
  obtain key i where p: "p = (key, i)" by (cases p)
  from assms Some p
  have "claimantsLoop L c ofd osd (sd ! i) i key items (granted, st) = (None, granted', st')"
    by (simp add: resolveGroup_def)
  from claimantsLoop_outcome [OF this] rejections_winners_length [of L "sd ! i" key items]
  show ?thesis by simp
qed

lemma duplicatedLoop_count:
  "duplicatedLoop L c ofd osd sd dd acc = (None, granted', st') \<Longrightarrow>
   grantedCount granted' + length (csvRecords st')
   = grantedCount (fst acc) + length (csvRecords (snd acc)) + length dd"
proof (induction L c ofd osd sd dd acc arbitrary: granted' st' rule: duplicatedLoop.induct)
  case (1 L c ofd osd sd acc)
  then show ?case by auto
next
  case (2 L c ofd osd sd first others acc)
  let ?same = "\<lambda>item. field item ''NISDEPENDEN'' = field first ''NISDEPENDEN''"
  let ?other = "\<lambda>item. field item ''NISDEPENDEN'' \<noteq> field first ''NISDEPENDEN''"
  obtain e g s where step: "resolveGroup L c ofd osd sd (filter ?same (first # others)) acc = (e, g, s)"
    by (metis prod_cases3)
  with "2.prems" have e: "e = None"
    by (cases e) simp_all
  with "2.prems" step
  have rec: "duplicatedLoop L c ofd osd sd (filter ?other (first # others)) (g, s) = (None, granted', st')"
    by simp
  have one: "grantedCount g + length (csvRecords s)
             = grantedCount (fst acc) + length (csvRecords (snd acc))
               + length (filter ?same (first # others))"
    using resolveGroup_count [of L c ofd osd sd "filter ?same (first # others)" "fst acc" "snd acc" g s]
          step e by simp
  have two: "grantedCount granted' + length (csvRecords st')
             = grantedCount g + length (csvRecords s) + length (filter ?other (first # others))"
    using "2.IH" [OF step [symmetric] _ _ rec] e by simp
  have "length (filter ?same (first # others)) + length (filter ?other (first # others))
        = length (first # others)"
    using sum_length_filter_compl [of ?same "first # others"] by simp
  with one two show ?case by simp
qed

lemma saveFamilies_csvRecords:
  "csvRecords (snd (saveFamilies L c granted st)) = csvRecords st"
  by (cases "saveFamilies L c granted st") (auto dest: saveFamilies_csv)

lemma crossReference_count:
  assumes "crossReference L c ofd osd st = (None, granted', st')"
  shows "grantedCount granted' + length (csvRecords st')
         = length (csvRecords st)
           + length (uniqueDependent (deburrData L ofd))
           + length (duplicatedDependent (deburrData L ofd))"
proof -
  let ?fd = "uniqueDependent (deburrData L ofd)"
  let ?dd = "duplicatedDependent (deburrData L ofd)"
  obtain e1 g1 s1 where l1:
    "compareLoop L c ofd osd (deburrData L osd) (length ?fd) (enumerate 0 ?fd) ([], st) = (e1, g1, s1)"
    by (metis prod_cases3)
  with assms have e1: "e1 = None"
    by (cases e1) (simp_all add: crossReference_def Let_def)
  obtain e2 g2 s2 where l2:
    "duplicatedLoop L c ofd osd (deburrData L osd) ?dd (g1, s1) = (e2, g2, s2)"
    by (metis prod_cases3)
  with assms l1 e1 have e2: "e2 = None"
    by (cases e2) (simp_all add: crossReference_def Let_def)
  from assms l1 l2 e1 e2 have g: "granted' = g2"
    and s: "csvRecords st' = csvRecords s2"
    by (auto simp: crossReference_def Let_def split: prod.splits dest: saveFamilies_csv)
  from compareLoop_count [OF l1 [unfolded e1]] duplicatedLoop_count [OF l2 [unfolded e2]] g s
  show ?thesis by (simp add: grantedCount_def)
qed

lemma splitByAge_lengths:
  "length (fst (splitByAge L rows)) + length (snd (splitByAge L rows)) = length rows"
  using sum_length_filter_compl [of "\<lambda>item. validAge L (field item ''DTNASCDEP'')" rows]
  by (simp add: splitByAge_eq)

lemma import_count:
  assumes "importFamilyFromCadAndSislameCSV L familyRows sislameRows c st = (None, granted', st')"
  shows "grantedCount granted' + length (csvRecords st')
         = length (csvRecords st)
           + length (snd (splitByAge L (uniqBy familyRows familyKey)))
           + length (uniqueDependent (deburrData L (fst (splitByAge L (uniqBy familyRows familyKey)))))
           + length (duplicatedDependent (deburrData L (fst (splitByAge L (uniqBy familyRows familyKey)))))"
proof -
  let ?st2 = "report_update (report filtering_data) c (report_update (report reading_files) c st)"
  obtain e3 s3 where c1: "checkRequiredSislameData (elemAt sislameRows 0) c ?st2 = (e3, s3)"
    by (cases "checkRequiredSislameData (elemAt sislameRows 0) c ?st2")
  with assms have e3: "e3 = None"
    by (cases e3) (simp_all add: importFamilyFromCadAndSislameCSV_def Let_def)
  obtain e4 s4 where c2: "checkRequiredFamilyData (elemAt familyRows 0) c s3 = (e4, s4)"
    by (cases "checkRequiredFamilyData (elemAt familyRows 0) c s3")
  with assms c1 e3 have e4: "e4 = None"
    by (cases e4) (simp_all add: importFamilyFromCadAndSislameCSV_def Let_def)
  have s3: "csvRecords s3 = csvRecords st"
    using c1 e3
    by (auto simp: checkRequiredSislameData_def Let_def split: option.splits if_splits)
  have s4: "csvRecords s4 = csvRecords s3"
    using c2 e4
    by (auto simp: checkRequiredFamilyData_def Let_def split: option.splits if_splits)
  from assms c1 c2 e3 e4
  have "crossReference L c (fst (splitByAge L (uniqBy familyRows familyKey)))
          (uniqBy sislameRows sislameKey)
          (writeRecords (snd (splitByAge L (uniqBy familyRows familyKey))) s4)
        = (None, granted', st')"
    by (simp add: importFamilyFromCadAndSislameCSV_def reconcile_def Let_def)
  from crossReference_count [OF this] s3 s4 show ?thesis by simp
qed

lemma uniqByFrom_distinct:
  "distinct (map f xs) \<Longrightarrow> \<forall>x\<in>set xs. f x \<notin> set seen \<Longrightarrow> uniqByFrom seen f xs = xs"
proof (induction xs arbitrary: seen)
  case Nil
  then show ?case by simp
next
  case (Cons a xs)
  have "\<forall>x\<in>set xs. f x \<notin> set (f a # seen)"
  proof
    fix x
    assume x: "x \<in> set xs"
    then have "f x \<in> f ` set xs" by simp
    with Cons.prems(1) have "f x \<noteq> f a" by auto
    with Cons.prems(2) x show "f x \<notin> set (f a # seen)" by simp
  qed
  moreover have "distinct (map f xs)"
    using Cons.prems by simp
  ultimately have "uniqByFrom (f a # seen) f xs = xs"
    by (rule Cons.IH [rotated])
  with Cons.prems show ?case by simp
qed

lemma duplicatedDependent_empty_distinct:
  assumes "duplicatedDependent fd = []"
  shows "distinct (map (\<lambda>item. field item ''NISDEPENDEN'') fd)"
proof -
  define Q where "Q = (\<lambda>p :: nat \<times> row.
     find (\<lambda>q. if fst p = fst q then False
                else field (snd p) ''NISDEPENDEN'' = field (snd q) ''NISDEPENDEN'')
       (enumerate 0 fd))"
  have dd: "duplicatedDependent fd = map snd (filter (\<lambda>p. Q p \<noteq> None) (enumerate 0 fd))"
    unfolding duplicatedDependent_def Q_def case_prod_beta by (rule refl)
  from assms dd have "filter (\<lambda>p. Q p \<noteq> None) (enumerate 0 fd) = []"
    by (simp only: map_is_Nil_conv)
  then have np: "\<forall>p\<in>set (enumerate 0 fd). Q p = None"
    by (simp only: filter_empty_conv not_not)
  have "\<forall>i<length fd. \<forall>j<length fd. i \<noteq> j \<longrightarrow>
          field (fd ! i) ''NISDEPENDEN'' \<noteq> field (fd ! j) ''NISDEPENDEN''"
  proof (intro allI impI)
    fix i j
    assume i: "i < length fd" and j: "j < length fd" and ij: "i \<noteq> j"
    have mi: "(i, fd ! i) \<in> set (enumerate 0 fd)" and mj: "(j, fd ! j) \<in> set (enumerate 0 fd)"
      using i j by (simp_all add: in_set_enumerate_eq)
    from np mi have "Q (i, fd ! i) = None" by blast
    then have fn: "find (\<lambda>q. if i = fst q then False
                            else field (fd ! i) ''NISDEPENDEN'' = field (snd q) ''NISDEPENDEN'')
                    (enumerate 0 fd) = None"
      unfolding Q_def by (simp only: fst_conv snd_conv)
    show "field (fd ! i) ''NISDEPENDEN'' \<noteq> field (fd ! j) ''NISDEPENDEN''"
    proof
      assume eq: "field (fd ! i) ''NISDEPENDEN'' = field (fd ! j) ''NISDEPENDEN''"
      have "(\<lambda>q. if i = fst q then False
                  else field (fd ! i) ''NISDEPENDEN'' = field (snd q) ''NISDEPENDEN'') (j, fd ! j)"
        using ij eq by simp
      with mj have "\<exists>x. x \<in> set (enumerate 0 fd)
                     \<and> (\<lambda>q. if i = fst q then False
                              else field (fd ! i) ''NISDEPENDEN'' = field (snd q) ''NISDEPENDEN'') x"
        by blast
      with fn [unfolded find_None_iff] show False by blast
    qed
  qed
  then show ?thesis
    by (simp add: distinct_conv_nth)
qed

lemma uniqueDependent_no_duplicates:
  "duplicatedDependent fd = [] \<Longrightarrow> uniqueDependent fd = fd"
  by (simp add: uniqueDependent_def uniqBy_def uniqByFrom_distinct duplicatedDependent_empty_distinct)

lemma length_deburrData [simp]: "length (deburrData L rows) = length rows"
  by (simp add: deburrData_def)

lemma import_count_no_duplicates:
  assumes "importFamilyFromCadAndSislameCSV L familyRows sislameRows c st = (None, granted', st')"
      and "duplicatedDependent (deburrData L (fst (splitByAge L (uniqBy familyRows familyKey)))) = []"
  shows "grantedCount granted' + length (csvRecords st')
         = length (csvRecords st) + length (uniqBy familyRows familyKey)"
  using import_count [OF assms(1)] uniqueDependent_no_duplicates [OF assms(2)] assms(2)
        splitByAge_lengths [of L "uniqBy familyRows familyKey"]
  by simp

section \<open>A dependent claimed by two responsibles\<close>

lemma import_jose_maria_both_parents:
  "fst (snd (importFamilyFromCadAndSislameCSV lib0 [joseJoao, mariaJoao] [joaoEnrolled] 7 state0))
   = [\<lparr>responsibleNis = Some ''100'', responsibleName = Some ''JOSE SILVA'',
        responsibleBirthday = Date 736560, responsibleMotherName = [], code = [],
        groupName = ''group-0'', familyCityId = 7,
        dependents = [(joseJoao, joaoEnrolled)]\<rparr>,
      \<lparr>responsibleNis = Some ''200'', responsibleName = Some ''MARIA SILVA'',
        responsibleBirthday = Date 737336, responsibleMotherName = [], code = [],
        groupName = ''group-0'', familyCityId = 7,
        dependents = [(mariaJoao, joaoEnrolled)]\<rparr>]"
  by (simp add: model_defs lib_defs row_defs)

text \<open>
  C1. Two benefit rows claim the dependent 900, the father first and the mother second,
  and the enrollment row names both. The loop over the benefit rows grants the dependent
  to the father, whose row is the one \<open>uniqBy\<close> keeps; the pass over the duplicated
  dependents then grants it to the mother. The dependent ends in two families.
\<close>

theorem dependent_granted_to_two_families:
  "map (\<lambda>family. (responsibleNis family, map dependentNis (dependents family)))
     (fst (snd (importFamilyFromCadAndSislameCSV lib0 [joseJoao, mariaJoao] [joaoEnrolled] 7 state0)))
   = [(Some ''100'', [Some ''900'']), (Some ''200'', [Some ''900''])]"
  unfolding import_jose_maria_both_parents
  by (simp add: dependentNis_def field_def row_defs)

lemma import_jose_maria_mother:
  "importFamilyFromCadAndSislameCSV lib0 [joseJoao, mariaJoao] [joaoOfMaria] 7 state0
   = (None,
      [\<lparr>responsibleNis = Some ''200'', responsibleName = Some ''MARIA SILVA'',
        responsibleBirthday = Date 737336, responsibleMotherName = [], code = [],
        groupName = ''group-0'', familyCityId = 7,
        dependents = [(mariaJoao, joaoOfMaria)]\<rparr>],
      \<lparr>importReportList =
         [\<lparr>status = completed, message = None, percentage = None,
           cityId = Some 7, inProgress = Some False\<rparr>],
       csvRecords =
         [joseJoao @ [(''reason'', wrongResponsibleReason)],
          joseJoao @ [(''reason'', linkedToOtherReason ''MARIA SILVA'')]],
       certified =
         [\<lparr>responsibleNis = Some ''200'', responsibleName = Some ''MARIA SILVA'',
           responsibleBirthday = Date 737336, responsibleMotherName = [], code = [],
           groupName = ''group-0'', familyCityId = 7,
           dependents = [(mariaJoao, joaoOfMaria)]\<rparr>]\<rparr>)"
  by (simp add: model_defs lib_defs row_defs row_defs2)

text \<open>
  C2. Both rows of a dependent claimed twice are handed to the pass over the duplicated
  dependents, but the first of them also stays in the list the main loop goes through, and
  is rejected there before it is rejected again by the pass.
\<close>

theorem first_claimant_stays_in_main_pool:
  "duplicatedDependent (deburrData lib0 (fst (splitByAge lib0 (uniqBy [joseJoao, mariaJoao] familyKey))))
   = [joseJoao, mariaJoao]
   \<and> uniqueDependent (deburrData lib0 (fst (splitByAge lib0 (uniqBy [joseJoao, mariaJoao] familyKey))))
     = [joseJoao]
   \<and> csvRecords (snd (snd (importFamilyFromCadAndSislameCSV lib0 [joseJoao, mariaJoao] [joaoOfMaria] 7 state0)))
     = [joseJoao @ [(''reason'', wrongResponsibleReason)],
        joseJoao @ [(''reason'', linkedToOtherReason ''MARIA SILVA'')]]"
proof -
  have a: "duplicatedDependent (deburrData lib0 (fst (splitByAge lib0 (uniqBy [joseJoao, mariaJoao] familyKey))))
   = [joseJoao, mariaJoao]"
    by (simp add: model_defs lib_defs row_defs)
  have b: "uniqueDependent (deburrData lib0 (fst (splitByAge lib0 (uniqBy [joseJoao, mariaJoao] familyKey))))
     = [joseJoao]"
    by (simp add: model_defs lib_defs row_defs)
  from a b import_jose_maria_mother show ?thesis by simp
qed

text \<open>
  C3. On the same input two rows survive the removal of repeated lines, while one
  dependent is granted and two records are written: the first row has two outcomes.
\<close>

theorem first_claimant_has_two_outcomes:
  "length (uniqBy [joseJoao, mariaJoao] familyKey) = 2
   \<and> grantedCount (fst (snd (importFamilyFromCadAndSislameCSV lib0 [joseJoao, mariaJoao] [joaoOfMaria] 7 state0)))
     + length (csvRecords (snd (snd (importFamilyFromCadAndSislameCSV lib0 [joseJoao, mariaJoao] [joaoOfMaria] 7 state0))))
     = 3"
proof -
  have "length (uniqBy [joseJoao, mariaJoao] familyKey) = 2"
    by (simp add: uniqBy_def familyKey_def field_def template_def row_defs)
  with import_jose_maria_mother show ?thesis by (simp add: grantedCount_def)
qed

end
